theory Spec2Isabelle
  imports Complex_Main
begin

section \<open>Python values, errors and collaborators\<close>

text \<open>
  The three agents of \<^verbatim>\<open>coder_agent\<close> pass around plain Python data: what
  \<^verbatim>\<open>json.loads\<close> produces, what the collaborators return, and the dictionaries
  of the argument lists. A dictionary is an association list with string keys, read
  with \<open>map_of\<close> as \<^verbatim>\<open>dict.get\<close> reads it. Characters are the code points
  below 256.
\<close>

datatype pyval =
    PNone
  | PBool bool
  | PInt int
  | PFloat real
  | PStr string
  | PList "pyval list"
  | PDict "(string \<times> pyval) list"

text \<open>
  The exceptions that the modelled code can meet. All of them derive from
  \<^verbatim>\<open>Exception\<close>, so every \<^verbatim>\<open>except Exception\<close> of the source catches each.
\<close>

datatype error =
    AttributeError
  | IndexError
  | TypeError
  | JSONDecodeError
  | CollaboratorError string

text \<open>
  Code outside the repository: \<^verbatim>\<open>app.utils.llm.call_llm\<close>,
  \<^verbatim>\<open>app.utils.deep_search.deep_search\<close>, and the library functions
  \<^verbatim>\<open>json.loads\<close>, \<^verbatim>\<open>json.dumps(_, indent=2)\<close> and \<^verbatim>\<open>str\<close> on a value that is
  not a string. The pipelines take them as one record of functions; \<open>Inl\<close> is a
  raised exception.
\<close>

record lib =
  call_llm :: "string \<Rightarrow> error + pyval"
  deep_search :: "string \<Rightarrow> pyval list \<Rightarrow> error + pyval"
  json_loads :: "string \<Rightarrow> error + pyval"
  json_dumps :: "pyval \<Rightarrow> error + string"
  str_of :: "pyval \<Rightarrow> string"

text \<open>Truthiness, as \<^verbatim>\<open>if x\<close>, \<^verbatim>\<open>not x\<close> and \<^verbatim>\<open>x or y\<close> test it.\<close>

fun truthy :: "pyval \<Rightarrow> bool" where
  "truthy PNone = False"
| "truthy (PBool b) = b"
| "truthy (PInt i) = (i \<noteq> 0)"
| "truthy (PFloat x) = (x \<noteq> 0)"
| "truthy (PStr s) = (s \<noteq> [])"
| "truthy (PList xs) = (xs \<noteq> [])"
| "truthy (PDict d) = (d \<noteq> [])"

definition py_or :: "pyval \<Rightarrow> pyval \<Rightarrow> pyval" where
  "py_or a b = (if truthy a then a else b)"

text \<open>\<^verbatim>\<open>isinstance(v, int)\<close>: \<^verbatim>\<open>bool\<close> is a subclass of \<^verbatim>\<open>int\<close>.\<close>

fun isinstance_int :: "pyval \<Rightarrow> bool" where
  "isinstance_int (PInt i) = True"
| "isinstance_int (PBool b) = True"
| "isinstance_int v = False"

fun int_of :: "pyval \<Rightarrow> int" where
  "int_of (PInt i) = i"
| "int_of (PBool b) = (if b then 1 else 0)"
| "int_of v = 0"

fun isinstance_list :: "pyval \<Rightarrow> bool" where
  "isinstance_list (PList xs) = True"
| "isinstance_list v = False"

fun isinstance_dict :: "pyval \<Rightarrow> bool" where
  "isinstance_dict (PDict d) = True"
| "isinstance_dict v = False"

text \<open>\<^verbatim>\<open>d.get(k)\<close> and \<^verbatim>\<open>d.get(k, default)\<close> on a dictionary.\<close>

definition dict_get :: "(string \<times> pyval) list \<Rightarrow> string \<Rightarrow> pyval \<Rightarrow> pyval" where
  "dict_get d k dflt = (case map_of d k of None \<Rightarrow> dflt | Some v \<Rightarrow> v)"

text \<open>
  \<^verbatim>\<open>v.get(k, default)\<close> on any value: only a dictionary has the method, every other
  value raises \<^verbatim>\<open>AttributeError\<close>.
\<close>

fun py_get :: "pyval \<Rightarrow> string \<Rightarrow> pyval \<Rightarrow> error + pyval" where
  "py_get (PDict d) k dflt = Inr (dict_get d k dflt)"
| "py_get v k dflt = Inl AttributeError"

text \<open>
  Subscription \<^verbatim>\<open>xs[i]\<close> of a list. Positions \<open>0\<close> up to the length are read
  directly, positions from minus the length up to \<open>-1\<close> are read from the right, and
  any other position is an \<^verbatim>\<open>IndexError\<close>.
\<close>

definition py_index :: "'a list \<Rightarrow> int \<Rightarrow> error + 'a" where
  "py_index xs i =
     (if 0 \<le> i \<and> i < int (length xs) then Inr (xs ! nat i)
      else if i < 0 \<and> - int (length xs) \<le> i then Inr (xs ! nat (int (length xs) + i))
      else Inl IndexError)"

section \<open>String operations of the source\<close>

text \<open>\<^verbatim>\<open>str.isspace\<close> on one character, for the code points below 256.\<close>

definition is_space :: "char \<Rightarrow> bool" where
  "is_space c = (of_char c \<in> {9, 10, 11, 12, 13, 28, 29, 30, 31, 32, 133, 160 :: nat})"

definition lstrip :: "string \<Rightarrow> string" where
  "lstrip s = dropWhile is_space s"

definition rstrip :: "string \<Rightarrow> string" where
  "rstrip s = rev (dropWhile is_space (rev s))"

definition strip :: "string \<Rightarrow> string" where
  "strip s = rstrip (lstrip s)"

text \<open>
  \<^verbatim>\<open>s.find(c)\<close> and \<^verbatim>\<open>s.rfind(c)\<close> for a one-character needle: the first and the
  last position of \<open>c\<close>, or \<open>-1\<close>.
\<close>

fun find_from :: "char \<Rightarrow> string \<Rightarrow> int \<Rightarrow> int" where
  "find_from c [] i = -1"
| "find_from c (x # xs) i = (if x = c then i else find_from c xs (i + 1))"

definition str_find :: "string \<Rightarrow> char \<Rightarrow> int" where
  "str_find s c = find_from c s 0"

fun rfind_from :: "char \<Rightarrow> string \<Rightarrow> int \<Rightarrow> int \<Rightarrow> int" where
  "rfind_from c [] i best = best"
| "rfind_from c (x # xs) i best = rfind_from c xs (i + 1) (if x = c then i else best)"

definition str_rfind :: "string \<Rightarrow> char \<Rightarrow> int" where
  "str_rfind s c = rfind_from c s 0 (-1)"

text \<open>
  \<^verbatim>\<open>s[lo:hi]\<close>: a negative bound counts from the end, and both bounds are clamped to
  the string.
\<close>

definition clamp_index :: "nat \<Rightarrow> int \<Rightarrow> nat" where
  "clamp_index n i = (if i < 0 then nat (int n + i) else min n (nat i))"

definition slice :: "'a list \<Rightarrow> int \<Rightarrow> int \<Rightarrow> 'a list" where
  "slice s lo hi =
     (let a = clamp_index (length s) lo; b = clamp_index (length s) hi
      in take (b - a) (drop a s))"

definition slice_from :: "'a list \<Rightarrow> int \<Rightarrow> 'a list" where
  "slice_from s lo = drop (clamp_index (length s) lo) s"

definition slice_to :: "'a list \<Rightarrow> int \<Rightarrow> 'a list" where
  "slice_to s hi = take (clamp_index (length s) hi) s"

definition startswith :: "string \<Rightarrow> string \<Rightarrow> bool" where
  "startswith s p = (take (length p) s = p)"

definition endswith :: "string \<Rightarrow> string \<Rightarrow> bool" where
  "endswith s p = (length p \<le> length s \<and> drop (length s - length p) s = p)"

text \<open>\<^verbatim>\<open>sep.join(parts)\<close>.\<close>

fun join :: "string \<Rightarrow> string list \<Rightarrow> string" where
  "join sep [] = []"
| "join sep [x] = x"
| "join sep (x # y # ys) = x @ sep @ join sep (y # ys)"

section \<open>The payload extractor\<close>

text \<open>
  \<^verbatim>\<open>while text.endswith("`"): text = text[:-1]\<close> of \<^verbatim>\<open>_extract_json_block\<close>.
  Each round removes one character, so the loop ends.
\<close>

function strip_backticks :: "string \<Rightarrow> string" where
  "strip_backticks text =
     (if endswith text ''`'' then strip_backticks (slice_to text (-1)) else text)"
  by pat_completeness auto
termination
  by (relation "measure length")
     (auto simp: endswith_def slice_to_def clamp_index_def)

declare strip_backticks.simps [simp del]

text \<open>
  \<^verbatim>\<open>_extract_json_block\<close> (navigator\_agent.py, lines 9 to 34) on a string. The fence
  branch removes the text up to the first line break only when there is one.
\<close>

definition unfence :: "string \<Rightarrow> string" where
  "unfence text0 =
     (if startswith text0 ''```'' then
        (let first_newline = str_find text0 CHR 0x0A;
             text1 = (if first_newline \<noteq> -1 then slice_from text0 (first_newline + 1) else text0);
             text2 = strip_backticks text1
         in strip text2)
      else text0)"

definition braces :: "string \<Rightarrow> string" where
  "braces text =
     (let start = str_find text CHR ''{'';
          end' = str_rfind text CHR ''}''
      in if start \<noteq> -1 \<and> end' \<noteq> -1 \<and> end' > start then slice text start (end' + 1)
         else text)"

definition extract_json_block_str :: "string \<Rightarrow> string" where
  "extract_json_block_str raw =
     (if raw = [] then []
      else braces (unfence (strip raw)))"

text \<open>
  The same function on any value: a falsy value gives the empty string at the first
  test, and a truthy value that is not a string has no \<^verbatim>\<open>strip\<close> method.
\<close>

definition extract_json_block :: "pyval \<Rightarrow> error + string" where
  "extract_json_block raw =
     (if \<not> truthy raw then Inr []
      else case raw of PStr s \<Rightarrow> Inr (extract_json_block_str s) | _ \<Rightarrow> Inl AttributeError)"


section \<open>The plan pipeline\<close>

definition nl :: string where
  "nl = [CHR 0x0A]"

text \<open>The prompt of \<^verbatim>\<open>plan_code_generation\<close> (navigator\_agent.py, lines 42 to 55).\<close>

definition planning_prompt :: "string \<Rightarrow> string \<Rightarrow> string" where
  \<open>planning_prompt requirements project_type =
     ''You are a senior software architect helping another agent generate code.'' @ nl @
     ''Given a user requirement and a project type, break the work into a small set '' @
     ''of concrete code components and KB search hints.'' @ nl @ nl @
     ''Return JSON with this shape ONLY (no explanations, no markdown, no extra text):'' @ nl @
     ''{'' @ nl @
     ''  "components": ['' @ nl @
     ''    {"name": "...", "description": "...", "priority": 1}'' @ nl @
     ''  ],'' @ nl @
     ''  "search_queries": ["...", "..."]'' @ nl @
     ''}'' @ nl @ nl @
     ''PROJECT_TYPE: '' @ project_type @ nl @
     ''REQUIREMENTS:'' @ nl @ requirements @ nl\<close>

text \<open>
  The plan is a dictionary with the two keys \<^verbatim>\<open>components\<close> and
  \<^verbatim>\<open>search_queries\<close>; the code only ever stores a list under either.
\<close>

record plan =
  components :: "pyval list"
  search_queries :: "pyval list"

definition default_plan :: "string \<Rightarrow> plan" where
  "default_plan requirements =
     \<lparr> components =
         [PDict [(''name'', PStr ''main_module''),
                 (''description'', PStr requirements),
                 (''priority'', PInt 1)]],
       search_queries = [PStr requirements] \<rparr>"

fun items_of :: "pyval \<Rightarrow> pyval list" where
  "items_of (PList xs) = xs"
| "items_of v = []"

text \<open>
  The \<^verbatim>\<open>try\<close> block of lines 80 to 89. It returns the plan as the block leaves it
  and the exception that ended it, if any.
\<close>

definition plan_try :: "lib \<Rightarrow> pyval \<Rightarrow> plan \<Rightarrow> plan \<times> error option" where
  "plan_try L raw plan0 =
     (case extract_json_block raw of
        Inl exc \<Rightarrow> (plan0, Some exc)
      | Inr json_block \<Rightarrow>
          (case json_loads L json_block of
             Inl exc \<Rightarrow> (plan0, Some exc)
           | Inr parsed \<Rightarrow>
               (case parsed of
                  PDict d \<Rightarrow>
                    (let cs = dict_get d ''components'' PNone;
                         plan1 = (if isinstance_list cs \<and> truthy cs
                                  then plan0\<lparr>components := items_of cs\<rparr> else plan0);
                         qs = dict_get d ''search_queries'' PNone;
                         plan2 = (if isinstance_list qs \<and> truthy qs
                                  then plan1\<lparr>search_queries := items_of qs\<rparr> else plan1)
                     in (plan2, None))
                | _ \<Rightarrow> (plan0, None))))"

text \<open>
  \<^verbatim>\<open>raw[:200]\<close>, which the handler of lines 90 to 96 evaluates for its log line:
  strings and lists can be sliced, the other values raise.
\<close>

fun preview :: "pyval \<Rightarrow> error + pyval" where
  "preview (PStr s) = Inr (PStr (slice_to s 200))"
| "preview (PList xs) = Inr (PList (slice_to xs 200))"
| "preview v = Inl TypeError"

definition plan_code_generation :: "lib \<Rightarrow> string \<Rightarrow> string \<Rightarrow> error + plan" where
  "plan_code_generation L requirements project_type =
     (let raw = (case call_llm L (planning_prompt requirements project_type) of
                   Inl exc \<Rightarrow> PStr []
                 | Inr r \<Rightarrow> py_or r (PStr []));
          plan0 = default_plan requirements
      in if \<not> truthy raw then Inr plan0
         else (case plan_try L raw plan0 of
                 (p, None) \<Rightarrow> Inr p
               | (p, Some exc) \<Rightarrow>
                   (case preview raw of Inl e \<Rightarrow> Inl e | Inr shown \<Rightarrow> Inr p)))"

section \<open>The exemplar selector\<close>

record exemplar =
  index :: pyval
  artifact_name :: pyval
  document_name :: pyval
  section_name :: pyval
  description :: pyval

text \<open>
  \<^verbatim>\<open>_build_exemplar\<close> (search\_agent.py, lines 39 to 47): the section is read by
  index, and \<^verbatim>\<open>entry.get\<close> needs a dictionary.
\<close>

definition build_exemplar :: "pyval list \<Rightarrow> pyval \<Rightarrow> error + exemplar" where
  "build_exemplar code_sections section_idx =
     (case py_index code_sections (int_of section_idx) of
        Inl e \<Rightarrow> Inl e
      | Inr entry \<Rightarrow>
          (case entry of
             PDict d \<Rightarrow>
               Inr \<lparr> index = section_idx,
                     artifact_name = dict_get d ''artifact_name'' PNone,
                     document_name = dict_get d ''document_name'' PNone,
                     section_name = dict_get d ''section_name'' PNone,
                     description = dict_get d ''description'' PNone \<rparr>
           | _ \<Rightarrow> Inl AttributeError))"

text \<open>Lines 24 to 35: the index the ranking result proposes, or 0.\<close>

definition chosen_index :: "pyval \<Rightarrow> pyval list \<Rightarrow> pyval" where
  "chosen_index result code_sections =
     (case result of
        PDict d \<Rightarrow>
          (let idx = dict_get d ''chosen_section_index'' PNone
           in if idx = PNone \<or> \<not> isinstance_int idx
                 \<or> \<not> (0 \<le> int_of idx \<and> int_of idx < int (length code_sections))
              then PInt 0 else idx)
      | _ \<Rightarrow> PInt 0)"

text \<open>
  The loop of lines 53 to 58 over the offsets that remain, with the exemplars
  collected so far.
\<close>

fun add_neighbors ::
  "pyval list \<Rightarrow> int \<Rightarrow> int \<Rightarrow> int list \<Rightarrow> exemplar list \<Rightarrow> error + exemplar list" where
  "add_neighbors code_sections max_exemplars idx [] exemplars = Inr exemplars"
| "add_neighbors code_sections max_exemplars idx (offset # rest) exemplars =
     (if int (length exemplars) \<ge> max_exemplars then Inr exemplars
      else
        (let neighbor = idx + offset
         in if 0 \<le> neighbor \<and> neighbor < int (length code_sections) then
              (case build_exemplar code_sections (PInt neighbor) of
                 Inl e \<Rightarrow> Inl e
               | Inr ex \<Rightarrow> add_neighbors code_sections max_exemplars idx rest (exemplars @ [ex]))
            else add_neighbors code_sections max_exemplars idx rest exemplars))"

definition find_function_exemplars ::
  "lib \<Rightarrow> string \<Rightarrow> pyval list \<Rightarrow> int \<Rightarrow> error + exemplar list" where
  "find_function_exemplars L requirement code_sections max_exemplars =
     (if code_sections = [] then Inr []
      else
        (case deep_search L requirement code_sections of
           Inl e \<Rightarrow> Inl e
         | Inr result \<Rightarrow>
             (let idx = chosen_index result code_sections
              in case build_exemplar code_sections idx of
                   Inl e \<Rightarrow> Inl e
                 | Inr ex \<Rightarrow>
                     add_neighbors code_sections max_exemplars (int_of idx) [-1, 1, -2, 2] [ex])))"

section \<open>The documentation pipeline\<close>

text \<open>
  A value inside an f-string: a string stands for itself, any other value is shown
  by \<^verbatim>\<open>str\<close>.
\<close>

definition fmt :: "lib \<Rightarrow> pyval \<Rightarrow> string" where
  "fmt L v = (case v of PStr s \<Rightarrow> s | _ \<Rightarrow> str_of L v)"

text \<open>One element of the list comprehension of doc\_agent.py, lines 41 to 44.\<close>

definition exemplar_block :: "lib \<Rightarrow> pyval \<Rightarrow> error + string" where
  "exemplar_block L ex =
     (case py_get ex ''section_name'' (PStr []) of
        Inl e \<Rightarrow> Inl e
      | Inr sn \<Rightarrow>
          (case py_get ex ''description'' (PStr []) of
             Inl e \<Rightarrow> Inl e
           | Inr ds \<Rightarrow> Inr (''# Exemplar: '' @ fmt L sn @ nl @ fmt L ds @ nl)))"

fun exemplar_blocks :: "lib \<Rightarrow> pyval list \<Rightarrow> error + string list" where
  "exemplar_blocks L [] = Inr []"
| "exemplar_blocks L (ex # exs) =
     (case exemplar_block L ex of
        Inl e \<Rightarrow> Inl e
      | Inr b \<Rightarrow> (case exemplar_blocks L exs of Inl e \<Rightarrow> Inl e | Inr bs \<Rightarrow> Inr (b # bs)))"

definition exemplars_text_of :: "lib \<Rightarrow> pyval list \<Rightarrow> error + string" where
  "exemplars_text_of L exemplars =
     (if exemplars \<noteq> [] then
        (case exemplar_blocks L (slice_to exemplars 3) of
           Inl e \<Rightarrow> Inl e
         | Inr bs \<Rightarrow> Inr (join nl bs))
      else Inr [])"

text \<open>Lines 46 to 52: the knowledge base, serialised and cut to 2000 characters.\<close>

definition tribal_summary_of :: "lib \<Rightarrow> (string \<times> pyval) list \<Rightarrow> string" where
  "tribal_summary_of L tribal_kb =
     (if tribal_kb \<noteq> [] then
        (case json_dumps L (PDict tribal_kb) of
           Inr s \<Rightarrow> slice_to s 2000
         | Inl exc \<Rightarrow> slice_to (str_of L (PDict tribal_kb)) 2000)
      else [])"

text \<open>Lines 54 to 102: the parts of the prompt, joined by line breaks.\<close>

definition prompt_parts :: "string \<Rightarrow> string \<Rightarrow> string \<Rightarrow> string \<Rightarrow> string \<Rightarrow> string list" where
  \<open>prompt_parts requirement project_type code exemplars_text tribal_summary =
     [''You are a technical writer. Generate comprehensive documentation.'',
      [],
      ''PROJECT_TYPE: '' @ project_type,
      [],
      ''REQUIREMENT:'',
      requirement]
     @ (if code \<noteq> [] then [[], ''CODE TO DOCUMENT:'', code] else [])
     @ (if exemplars_text \<noteq> [] then [[], ''DOCUMENTATION EXEMPLARS:'', exemplars_text] else [])
     @ (if tribal_summary \<noteq> [] then [[], ''TRIBAL KNOWLEDGE:'', tribal_summary] else [])
     @ [[],
        ''Generate documentation including:'',
        ''- README with setup and usage'',
        ''- API documentation'',
        ''- Inline code comments'',
        ''- Usage examples'',
        [],
        ''Return JSON with this shape ONLY:'',
        ''{'',
        ''  "readme": "...",'',
        ''  "api_docs": "...",'',
        ''  "inline_docs": "...",'',
        ''  "usage_examples": "...",'',
        ''  "installation_instructions": "..."'',
        ''}'']\<close>

definition doc_prompt ::
  "lib \<Rightarrow> string \<Rightarrow> string \<Rightarrow> string \<Rightarrow> pyval list option \<Rightarrow> (string \<times> pyval) list option
     \<Rightarrow> error + string" where
  "doc_prompt L requirement project_type code exemplars tribal_kb =
     (let exemplars1 = (case exemplars of None \<Rightarrow> [] | Some xs \<Rightarrow> xs);
          tribal_kb1 = (case tribal_kb of None \<Rightarrow> [] | Some kb \<Rightarrow> kb)
      in case exemplars_text_of L exemplars1 of
           Inl e \<Rightarrow> Inl e
         | Inr exemplars_text \<Rightarrow>
             Inr (join nl (prompt_parts requirement project_type code exemplars_text
                             (tribal_summary_of L tribal_kb1))))"

text \<open>The bundle of lines 108 to 114 and 130 to 136.\<close>

definition empty_bundle :: "(string \<times> pyval) list" where
  "empty_bundle =
     [(''readme'', PStr []),
      (''api_docs'', PStr []),
      (''inline_docs'', PStr []),
      (''usage_examples'', PStr []),
      (''installation_instructions'', PStr [])]"

text \<open>
  The \<^verbatim>\<open>try\<close> block of lines 118 to 126: \<open>Inr (Some d)\<close> is \<^verbatim>\<open>return parsed\<close>,
  \<open>Inr None\<close> is the end of the block without a return, \<open>Inl\<close> an exception. Only a
  string has the \<^verbatim>\<open>find\<close> method.
\<close>

definition doc_try :: "lib \<Rightarrow> pyval \<Rightarrow> error + (string \<times> pyval) list option" where
  "doc_try L raw =
     (case raw of
        PStr s \<Rightarrow>
          (let start = str_find s CHR ''{'';
               end' = str_rfind s CHR ''}''
           in if start \<noteq> -1 \<and> end' \<noteq> -1 then
                (case json_loads L (slice s start (end' + 1)) of
                   Inl exc \<Rightarrow> Inl exc
                 | Inr parsed \<Rightarrow>
                     (case parsed of PDict d \<Rightarrow> Inr (Some d) | _ \<Rightarrow> Inr None))
              else Inr None)
      | _ \<Rightarrow> Inl AttributeError)"

definition generate_documentation ::
  "lib \<Rightarrow> string \<Rightarrow> string \<Rightarrow> string \<Rightarrow> pyval list option \<Rightarrow> (string \<times> pyval) list option
     \<Rightarrow> error + (string \<times> pyval) list" where
  "generate_documentation L requirement project_type code exemplars tribal_kb =
     (case doc_prompt L requirement project_type code exemplars tribal_kb of
        Inl e \<Rightarrow> Inl e
      | Inr prompt \<Rightarrow>
          (case call_llm L prompt of
             Inl exc \<Rightarrow> Inr empty_bundle
           | Inr r \<Rightarrow>
               (case doc_try L (py_or r (PStr [])) of
                  Inr (Some parsed) \<Rightarrow> Inr parsed
                | Inr None \<Rightarrow> Inr empty_bundle
                | Inl exc \<Rightarrow> Inr empty_bundle)))"

section \<open>A decoder for concrete runs\<close>

text \<open>
  \<^verbatim>\<open>json.loads\<close> is library code, and every theorem about all responses below holds
  for whatever decoder the record \<open>lib\<close> carries. To run a pipeline on one concrete
  response, \<open>loads_fragment\<close> decodes the documents made of objects, arrays, strings
  without a backslash, integers and \<^verbatim>\<open>true\<close>, \<^verbatim>\<open>false\<close>, \<^verbatim>\<open>null\<close>, as
  \<^verbatim>\<open>json.loads\<close> decodes them (a repeated key keeps its last value). On a text
  outside this fragment it answers \<open>JSONDecodeError\<close>, which \<^verbatim>\<open>json.loads\<close> need
  not do; it is applied to texts of the fragment only. The first argument of the
  parsing functions bounds the number of nested calls by the length of the text.
\<close>

definition json_ws :: "char \<Rightarrow> bool" where
  "json_ws c = (c = CHR '' '' \<or> c = CHR 0x09 \<or> c = CHR 0x0A \<or> c = CHR 0x0D)"

definition skip_ws :: "string \<Rightarrow> string" where
  "skip_ws s = dropWhile json_ws s"

fun dict_set :: "(string \<times> pyval) list \<Rightarrow> string \<Rightarrow> pyval \<Rightarrow> (string \<times> pyval) list" where
  "dict_set [] k v = [(k, v)]"
| "dict_set ((k', v') # d) k v = (if k' = k then (k, v) # d else (k', v') # dict_set d k v)"

fun scan_string :: "string \<Rightarrow> string \<Rightarrow> (string \<times> string) option" where
  "scan_string [] acc = None"
| "scan_string (c # r) acc =
     (if c = CHR 0x22 then Some (rev acc, r)
      else if c = CHR 0x5C \<or> (of_char c :: nat) < 32 then None
      else scan_string r (c # acc))"

definition is_digit :: "char \<Rightarrow> bool" where
  "is_digit c = (48 \<le> (of_char c :: nat) \<and> (of_char c :: nat) \<le> 57)"

definition digits_value :: "string \<Rightarrow> int" where
  "digits_value ds = foldl (\<lambda>a c. 10 * a + (int (of_char c) - 48)) 0 ds"

definition scan_int :: "string \<Rightarrow> (int \<times> string) option" where
  "scan_int s =
     (let neg = (s \<noteq> [] \<and> hd s = CHR ''-'');
          body = (if neg then tl s else s);
          ds = takeWhile is_digit body;
          rest = dropWhile is_digit body
      in if ds = [] \<or> (length ds > 1 \<and> hd ds = CHR ''0'')
            \<or> (rest \<noteq> [] \<and> hd rest \<in> {CHR ''.'', CHR ''e'', CHR ''E''})
         then None
         else Some ((if neg then - digits_value ds else digits_value ds), rest))"

fun parse_value :: "nat \<Rightarrow> string \<Rightarrow> (pyval \<times> string) option"
and parse_elements :: "nat \<Rightarrow> string \<Rightarrow> pyval list \<Rightarrow> (pyval \<times> string) option"
and parse_members :: "nat \<Rightarrow> string \<Rightarrow> (string \<times> pyval) list \<Rightarrow> (pyval \<times> string) option"
where
  "parse_value 0 s = None"
| "parse_value (Suc n) s =
     (case skip_ws s of
        [] \<Rightarrow> None
      | c # r \<Rightarrow>
          if c = CHR ''{'' then
            (case skip_ws r of
               [] \<Rightarrow> None
             | c' # r' \<Rightarrow> if c' = CHR ''}'' then Some (PDict [], r') else parse_members n r [])
          else if c = CHR ''['' then
            (case skip_ws r of
               [] \<Rightarrow> None
             | c' # r' \<Rightarrow> if c' = CHR '']'' then Some (PList [], r') else parse_elements n r [])
          else if c = CHR 0x22 then
            (case scan_string r [] of None \<Rightarrow> None | Some (str, rest) \<Rightarrow> Some (PStr str, rest))
          else if startswith (c # r) ''true'' then Some (PBool True, drop 4 (c # r))
          else if startswith (c # r) ''false'' then Some (PBool False, drop 5 (c # r))
          else if startswith (c # r) ''null'' then Some (PNone, drop 4 (c # r))
          else (case scan_int (c # r) of None \<Rightarrow> None | Some (i, rest) \<Rightarrow> Some (PInt i, rest)))"
| "parse_elements 0 s acc = None"
| "parse_elements (Suc n) s acc =
     (case parse_value n s of
        None \<Rightarrow> None
      | Some (v, r) \<Rightarrow>
          (case skip_ws r of
             [] \<Rightarrow> None
           | c # r' \<Rightarrow>
               if c = CHR '','' then parse_elements n r' (acc @ [v])
               else if c = CHR '']'' then Some (PList (acc @ [v]), r')
               else None))"
| "parse_members 0 s d = None"
| "parse_members (Suc n) s d =
     (case skip_ws s of
        [] \<Rightarrow> None
      | c # r \<Rightarrow>
          if c \<noteq> CHR 0x22 then None
          else
            (case scan_string r [] of
               None \<Rightarrow> None
             | Some (k, r1) \<Rightarrow>
                 (case skip_ws r1 of
                    [] \<Rightarrow> None
                  | c1 # r2 \<Rightarrow>
                      if c1 \<noteq> CHR '':'' then None
                      else
                        (case parse_value n r2 of
                           None \<Rightarrow> None
                         | Some (v, r3) \<Rightarrow>
                             (case skip_ws r3 of
                                [] \<Rightarrow> None
                              | c3 # r4 \<Rightarrow>
                                  if c3 = CHR '','' then parse_members n r4 (dict_set d k v)
                                  else if c3 = CHR ''}'' then Some (PDict (dict_set d k v), r4)
                                  else None)))))"

definition loads_fragment :: "string \<Rightarrow> error + pyval" where
  "loads_fragment s =
     (case parse_value (Suc (2 * length s)) s of
        None \<Rightarrow> Inl JSONDecodeError
      | Some (v, rest) \<Rightarrow> if skip_ws rest = [] then Inr v else Inl JSONDecodeError)"

text \<open>
  Collaborators for concrete runs: the text generator and the ranking service answer
  the given values whatever they are asked, \<^verbatim>\<open>json.dumps\<close> refuses every value and
  \<^verbatim>\<open>str\<close> shows every value alike.
\<close>

definition stub_lib :: "error + pyval \<Rightarrow> error + pyval \<Rightarrow> lib" where
  "stub_lib llm_answer search_answer =
     \<lparr> call_llm = (\<lambda>prompt. llm_answer),
       deep_search = (\<lambda>query candidates. search_answer),
       json_loads = loads_fragment,
       json_dumps = (\<lambda>v. Inl TypeError),
       str_of = (\<lambda>v. ''<value>'') \<rparr>"

section \<open>The properties, as the specification words them\<close>

text \<open>
  The definitions of this section do not come from the code. Each one writes down a
  notion of the specification, to be compared with what the code computes.
\<close>

subsection \<open>Shapes of the results\<close>

text \<open>A documentation bundle that misses none of its five keys.\<close>

definition fully_populated :: "(string \<times> pyval) list \<Rightarrow> bool" where
  "fully_populated d =
     (map_of d ''readme'' \<noteq> None \<and> map_of d ''api_docs'' \<noteq> None
      \<and> map_of d ''inline_docs'' \<noteq> None \<and> map_of d ''usage_examples'' \<noteq> None
      \<and> map_of d ''installation_instructions'' \<noteq> None)"

text \<open>
  A Component has a string \<^verbatim>\<open>name\<close>, a string \<^verbatim>\<open>description\<close> and an integer
  \<^verbatim>\<open>priority\<close>; a structurally valid Plan has a non-empty sequence of Components
  and a non-empty sequence of strings.
\<close>

fun is_str :: "pyval \<Rightarrow> bool" where
  "is_str (PStr s) = True"
| "is_str v = False"

fun is_integer :: "pyval \<Rightarrow> bool" where
  "is_integer (PInt i) = True"
| "is_integer v = False"

fun is_component :: "pyval \<Rightarrow> bool" where
  "is_component (PDict d) =
     (is_str (dict_get d ''name'' PNone) \<and> is_str (dict_get d ''description'' PNone)
      \<and> is_integer (dict_get d ''priority'' PNone))"
| "is_component v = False"

definition valid_plan :: "plan \<Rightarrow> bool" where
  "valid_plan p =
     (components p \<noteq> [] \<and> list_all is_component (components p)
      \<and> search_queries p \<noteq> [] \<and> list_all is_str (search_queries p))"

text \<open>
  The text-generation service is specified as \<^verbatim>\<open>generate(prompt) -> string\<close> that may
  raise; the source also provides for \<^verbatim>\<open>None\<close>. An answer of that interface:
\<close>

fun text_reply :: "error + pyval \<Rightarrow> bool" where
  "text_reply (Inl exc) = True"
| "text_reply (Inr PNone) = True"
| "text_reply (Inr (PStr s)) = True"
| "text_reply (Inr v) = False"

text \<open>
  A list-typed field that is "empty or absent", or not a list at all: the cases in
  which the default is to be kept.
\<close>

fun unusable :: "pyval option \<Rightarrow> bool" where
  "unusable None = True"
| "unusable (Some (PList xs)) = (xs = [])"
| "unusable (Some v) = True"

subsection \<open>The payload extractor in the words of the specification\<close>

text \<open>
  "Strip the first line": everything up to and including the first line break; a text
  of a single line is that line.
\<close>

definition without_first_line :: "string \<Rightarrow> string" where
  "without_first_line s = drop 1 (dropWhile (\<lambda>c. c \<noteq> CHR 0x0A) s)"

text \<open>"Any trailing fence markers": the backquotes at the end of the text.\<close>

definition without_trailing_fence :: "string \<Rightarrow> string" where
  "without_trailing_fence s = rev (dropWhile (\<lambda>c. c = CHR ''`'') (rev s))"

text \<open>
  "The substring from first to last inclusive", when a first opening brace and a last
  closing brace exist and the last follows the first.
\<close>

definition brace_block :: "string \<Rightarrow> string option" where
  "brace_block s =
     (let from_open = dropWhile (\<lambda>c. c \<noteq> CHR ''{'') s;
          block = rev (dropWhile (\<lambda>c. c \<noteq> CHR ''}'') (rev from_open))
      in if block = [] then None else Some block)"

text \<open>
  The extractor as the claim states it. The input is trimmed, since otherwise "the
  trimmed text" is returned, and the fence test reads the trimmed text.
\<close>

definition extract_stated :: "string \<Rightarrow> string" where
  "extract_stated raw =
     (if raw = [] then []
      else
        (let text = strip raw;
             body = (if startswith text ''```''
                     then strip (without_trailing_fence (without_first_line text))
                     else text)
         in case brace_block body of Some block \<Rightarrow> block | None \<Rightarrow> body))"

text \<open>
  The same, with the first line removed only from a text that has a line break.
\<close>

definition extract_amended :: "string \<Rightarrow> string" where
  "extract_amended raw =
     (if raw = [] then []
      else
        (let text = strip raw;
             body = (if startswith text ''```''
                     then strip (without_trailing_fence
                                   (if CHR 0x0A \<in> set text then without_first_line text else text))
                     else text)
         in case brace_block body of Some block \<Rightarrow> block | None \<Rightarrow> body))"

subsection \<open>The neighbourhood of the exemplar selector\<close>

text \<open>
  The indices the selector is to return for a chosen index \<open>i\<close> among \<open>n\<close> sections:
  \<open>i\<close> itself, then the neighbours at the offsets \<open>-1, +1, -2, +2\<close> that lie within
  bounds, as long as fewer than \<open>max_exemplars\<close> exemplars are collected.
\<close>

definition in_bounds :: "nat \<Rightarrow> int \<Rightarrow> bool" where
  "in_bounds n j = (0 \<le> j \<and> j < int n)"

definition neighbourhood :: "nat \<Rightarrow> int \<Rightarrow> int \<Rightarrow> int list" where
  "neighbourhood n max_exemplars i =
     i # take (nat (max_exemplars - 1)) (filter (in_bounds n) [i - 1, i + 1, i - 2, i + 2])"

text \<open>The exemplar of the section at position \<open>j\<close>, for a section that is a dictionary.\<close>

definition exemplar_at :: "pyval list \<Rightarrow> int \<Rightarrow> exemplar" where
  "exemplar_at code_sections j =
     (case code_sections ! nat j of
        PDict d \<Rightarrow>
          \<lparr> index = PInt j,
            artifact_name = dict_get d ''artifact_name'' PNone,
            document_name = dict_get d ''document_name'' PNone,
            section_name = dict_get d ''section_name'' PNone,
            description = dict_get d ''description'' PNone \<rparr>
      | _ \<Rightarrow> \<lparr> index = PInt j, artifact_name = PNone, document_name = PNone,
               section_name = PNone, description = PNone \<rparr>)"

text \<open>
  The Exemplar of a code section, as the data model has it: the section's four fields
  (\<^verbatim>\<open>None\<close> for a field the section lacks) annotated with the section's position in
  the input sequence, for a position \<open>j\<close> within the sequence. Here the sections
  are the dictionaries themselves, as the signature \<^verbatim>\<open>List[Dict[str, Any]]\<close>
  declares them.
\<close>

definition exemplar_of :: "(string \<times> pyval) list list \<Rightarrow> int \<Rightarrow> exemplar" where
  "exemplar_of sections j =
     \<lparr> index = PInt j,
       artifact_name = dict_get (sections ! nat j) ''artifact_name'' PNone,
       document_name = dict_get (sections ! nat j) ''document_name'' PNone,
       section_name = dict_get (sections ! nat j) ''section_name'' PNone,
       description = dict_get (sections ! nat j) ''description'' PNone \<rparr>"

text \<open>
  A ranking result without a usable index: it is not a mapping, or it lacks
  \<^verbatim>\<open>chosen_section_index\<close>, or that value is not an integer (as
  \<^verbatim>\<open>isinstance(_, int)\<close> tells), or it lies outside \<open>[0, n)\<close>.
\<close>

fun lacks_valid_index :: "pyval \<Rightarrow> nat \<Rightarrow> bool" where
  "lacks_valid_index (PDict d) n =
     (case map_of d ''chosen_section_index'' of
        None \<Rightarrow> True
      | Some v \<Rightarrow> \<not> isinstance_int v \<or> \<not> in_bounds n (int_of v))"
| "lacks_valid_index v n = True"

section \<open>The plan pipeline: results\<close>

lemma valid_default_plan: "valid_plan (default_plan requirements)"
  by (simp add: valid_plan_def default_plan_def dict_get_def)

text \<open>
  Claim C4. If the text-generation collaborator returns the empty string or raises,
  \<open>plan_code_generation\<close> returns exactly the default plan: one component named
  \<^verbatim>\<open>main_module\<close> with the requirement as description and priority 1, and the
  requirement as the only search query.
\<close>

theorem plan_default_floor:
  assumes "call_llm L (planning_prompt requirements project_type) = Inr (PStr [])
           \<or> (\<exists>exc. call_llm L (planning_prompt requirements project_type) = Inl exc)"
  shows "plan_code_generation L requirements project_type =
           Inr \<lparr> components =
                   [PDict [(''name'', PStr ''main_module''),
                           (''description'', PStr requirements),
                           (''priority'', PInt 1)]],
                 search_queries = [PStr requirements] \<rparr>"
  using assms
  by (auto simp: plan_code_generation_def py_or_def default_plan_def)

text \<open>Both cases of C4 at a concrete call: a collaborator that raises, and one that
  answers the empty string.\<close>

theorem plan_default_floor_witness:
  "plan_code_generation (stub_lib (Inl (CollaboratorError ''timeout'')) (Inr PNone))
       ''parse a log file'' ''cli'' =
     Inr \<lparr> components =
             [PDict [(''name'', PStr ''main_module''),
                     (''description'', PStr ''parse a log file''),
                     (''priority'', PInt 1)]],
           search_queries = [PStr ''parse a log file''] \<rparr>
   \<and> plan_code_generation (stub_lib (Inr (PStr [])) (Inr PNone)) ''parse a log file'' ''cli'' =
     Inr \<lparr> components =
             [PDict [(''name'', PStr ''main_module''),
                     (''description'', PStr ''parse a log file''),
                     (''priority'', PInt 1)]],
           search_queries = [PStr ''parse a log file''] \<rparr>"
proof -
  have raises:
    "\<exists>exc. call_llm (stub_lib (Inl (CollaboratorError ''timeout'')) (Inr PNone))
             (planning_prompt ''parse a log file'' ''cli'') = Inl exc"
    by (simp add: stub_lib_def)
  have empty:
    "call_llm (stub_lib (Inr (PStr [])) (Inr PNone))
       (planning_prompt ''parse a log file'' ''cli'') = Inr (PStr [])"
    by (simp add: stub_lib_def)
  show ?thesis
    using plan_default_floor [OF disjI2, OF raises] plan_default_floor [OF disjI1, OF empty]
    by simp
qed

section \<open>The documentation pipeline: results\<close>

lemma fully_populated_empty_bundle: "fully_populated empty_bundle"
  by (simp add: fully_populated_def empty_bundle_def)

lemma doc_prompt_plain:
  "doc_prompt L requirement project_type code None None =
     Inr (join nl (prompt_parts requirement project_type code [] []))"
  by (simp add: doc_prompt_def exemplars_text_of_def tribal_summary_of_def)

lemma find_from_bounds: "0 \<le> i \<Longrightarrow> (find_from c s i = -1) = (c \<notin> set s)"
proof (induction s arbitrary: i)
  case Nil
  show ?case by simp
next
  case (Cons x xs)
  from Cons.prems have "0 \<le> i + 1" by simp
  from Cons.IH [OF this] Cons.prems show ?case by auto
qed

lemma str_find_absent: "(str_find s c = -1) = (c \<notin> set s)"
  by (simp add: str_find_def find_from_bounds)

lemma rfind_from_bounds: "0 \<le> i \<Longrightarrow> (rfind_from c s i best = -1) = (c \<notin> set s \<and> best = -1)"
proof (induction s arbitrary: i best)
  case Nil
  show ?case by simp
next
  case (Cons x xs)
  from Cons.prems have "0 \<le> i + 1" by simp
  from Cons.IH [OF this] Cons.prems show ?case by auto
qed

lemma str_rfind_absent: "(str_rfind s c = -1) = (c \<notin> set s)"
  by (simp add: str_rfind_def rfind_from_bounds)

lemma doc_try_mapping:
  assumes "CHR ''{'' \<in> set s" and "CHR ''}'' \<in> set s"
  shows "doc_try L (PStr s) =
           (case json_loads L (slice s (str_find s CHR ''{'') (str_rfind s CHR ''}'' + 1)) of
              Inl exc \<Rightarrow> Inl exc
            | Inr parsed \<Rightarrow> (case parsed of PDict d \<Rightarrow> Inr (Some d) | _ \<Rightarrow> Inr None))"
  using assms by (simp add: doc_try_def str_find_absent str_rfind_absent)

lemma doc_try_only_mapping:
  assumes "doc_try L raw = Inr (Some d)"
  shows "\<exists>s. raw = PStr s \<and> CHR ''{'' \<in> set s \<and> CHR ''}'' \<in> set s
           \<and> json_loads L (slice s (str_find s CHR ''{'') (str_rfind s CHR ''}'' + 1))
                = Inr (PDict d)"
proof (cases raw)
  case (PStr s)
  with assms show ?thesis
    by (auto simp: doc_try_def Let_def str_find_absent str_rfind_absent
             split: if_splits sum.splits pyval.splits)
qed (use assms in \<open>simp_all add: doc_try_def\<close>)

text \<open>
  Claim C9. If the text-generation collaborator raises, \<open>generate_documentation\<close>
  returns at once the bundle whose five fields \<^verbatim>\<open>readme\<close>, \<^verbatim>\<open>api_docs\<close>,
  \<^verbatim>\<open>inline_docs\<close>, \<^verbatim>\<open>usage_examples\<close> and \<^verbatim>\<open>installation_instructions\<close> are
  the empty string. The collaborator is called with the prompt the function has built.
\<close>

theorem documentation_collaborator_raises:
  assumes "doc_prompt L requirement project_type code exemplars tribal_kb = Inr prompt"
    and "call_llm L prompt = Inl exc"
  shows "generate_documentation L requirement project_type code exemplars tribal_kb =
           Inr [(''readme'', PStr []),
                (''api_docs'', PStr []),
                (''inline_docs'', PStr []),
                (''usage_examples'', PStr []),
                (''installation_instructions'', PStr [])]"
  using assms by (simp add: generate_documentation_def empty_bundle_def)

theorem documentation_collaborator_raises_witness:
  "generate_documentation (stub_lib (Inl (CollaboratorError ''unreachable'')) (Inr PNone))
       ''document the parser'' ''cli'' [] None None =
     Inr [(''readme'', PStr []),
          (''api_docs'', PStr []),
          (''inline_docs'', PStr []),
          (''usage_examples'', PStr []),
          (''installation_instructions'', PStr [])]"
proof -
  have raises:
    "call_llm (stub_lib (Inl (CollaboratorError ''unreachable'')) (Inr PNone))
       (join nl (prompt_parts ''document the parser'' ''cli'' [] [] []))
     = Inl (CollaboratorError ''unreachable'')"
    by (simp add: stub_lib_def)
  show ?thesis
    using documentation_collaborator_raises [OF doc_prompt_plain raises] .
qed

text \<open>
  Claim C1, as stated: for every input the returned bundle contains all five keys, also
  when the response parses to a mapping that lacks some of them. The code returns a
  parsed mapping as it is: for the response \<^verbatim>\<open>{}\<close> the result is the empty dictionary.
\<close>

theorem documentation_bundle_keys_counterexample:
  \<open>generate_documentation (stub_lib (Inr (PStr ''{}'')) (Inr PNone))
       ''document the parser'' ''cli'' [] None None = Inr []
   \<and> \<not> fully_populated []\<close>
proof
  show \<open>generate_documentation (stub_lib (Inr (PStr ''{}'')) (Inr PNone))
          ''document the parser'' ''cli'' [] None None = Inr []\<close>
    by code_simp
  show "\<not> fully_populated []"
    by (simp add: fully_populated_def)
qed

text \<open>
  Claim C1, amended. For every input: an exception met while the prompt is built
  leaves the function, and no bundle is returned. Once the collaborator has been called
  with the prompt, there are two cases. If it answers a string that has an opening and a
  closing brace, and the text from the first opening to the last closing brace parses to
  a mapping, \<open>generate_documentation\<close> returns that mapping unchanged, whatever keys
  it has: keys that the mapping lacks stay missing. In every other case (the collaborator
  raises, answers something else than such a string, the text does not parse, or parses
  to something else than a mapping) it returns the bundle that has all five keys, each
  the empty string.
\<close>

theorem documentation_bundle_keys:
  "(\<forall>exc. doc_prompt L requirement project_type code exemplars tribal_kb = Inl exc
      \<longrightarrow> generate_documentation L requirement project_type code exemplars tribal_kb = Inl exc)
   \<and> (\<forall>prompt. doc_prompt L requirement project_type code exemplars tribal_kb = Inr prompt
      \<longrightarrow> (\<forall>s d. call_llm L prompt = Inr (PStr s)
                  \<and> CHR ''{'' \<in> set s \<and> CHR ''}'' \<in> set s
                  \<and> json_loads L (slice s (str_find s CHR ''{'') (str_rfind s CHR ''}'' + 1))
                       = Inr (PDict d)
              \<longrightarrow> generate_documentation L requirement project_type code exemplars tribal_kb
                    = Inr d)
          \<and> (\<not> (\<exists>s d. call_llm L prompt = Inr (PStr s)
                  \<and> CHR ''{'' \<in> set s \<and> CHR ''}'' \<in> set s
                  \<and> json_loads L (slice s (str_find s CHR ''{'') (str_rfind s CHR ''}'' + 1))
                       = Inr (PDict d))
              \<longrightarrow> generate_documentation L requirement project_type code exemplars tribal_kb
                    = Inr [(''readme'', PStr []),
                           (''api_docs'', PStr []),
                           (''inline_docs'', PStr []),
                           (''usage_examples'', PStr []),
                           (''installation_instructions'', PStr [])]
                  \<and> fully_populated [(''readme'', PStr []),
                           (''api_docs'', PStr []),
                           (''inline_docs'', PStr []),
                           (''usage_examples'', PStr []),
                           (''installation_instructions'', PStr [])]))"
proof (intro conjI allI impI)
  fix exc
  assume "doc_prompt L requirement project_type code exemplars tribal_kb = Inl exc"
  then show "generate_documentation L requirement project_type code exemplars tribal_kb = Inl exc"
    by (simp add: generate_documentation_def)
next
  fix prompt s d
  assume prompt: "doc_prompt L requirement project_type code exemplars tribal_kb = Inr prompt"
    and parsed: "call_llm L prompt = Inr (PStr s)
                  \<and> CHR ''{'' \<in> set s \<and> CHR ''}'' \<in> set s
                  \<and> json_loads L (slice s (str_find s CHR ''{'') (str_rfind s CHR ''}'' + 1))
                       = Inr (PDict d)"
  from parsed have "s \<noteq> []" by auto
  then have "py_or (PStr s) (PStr []) = PStr s"
    by (simp add: py_or_def)
  with prompt parsed show
    "generate_documentation L requirement project_type code exemplars tribal_kb = Inr d"
    by (simp add: generate_documentation_def doc_try_mapping)
next
  fix prompt
  assume prompt: "doc_prompt L requirement project_type code exemplars tribal_kb = Inr prompt"
    and none: "\<not> (\<exists>s d. call_llm L prompt = Inr (PStr s)
                  \<and> CHR ''{'' \<in> set s \<and> CHR ''}'' \<in> set s
                  \<and> json_loads L (slice s (str_find s CHR ''{'') (str_rfind s CHR ''}'' + 1))
                       = Inr (PDict d))"
  show "generate_documentation L requirement project_type code exemplars tribal_kb
          = Inr [(''readme'', PStr []), (''api_docs'', PStr []), (''inline_docs'', PStr []),
                 (''usage_examples'', PStr []), (''installation_instructions'', PStr [])]"
  proof (cases "call_llm L prompt")
    case (Inl exc)
    with prompt show ?thesis
      by (simp add: generate_documentation_def empty_bundle_def)
  next
    case (Inr r)
    have "doc_try L (py_or r (PStr [])) \<noteq> Inr (Some d)" for d
    proof
      assume "doc_try L (py_or r (PStr [])) = Inr (Some d)"
      from doc_try_only_mapping [OF this] obtain s
        where s: "py_or r (PStr []) = PStr s" "CHR ''{'' \<in> set s" "CHR ''}'' \<in> set s"
          "json_loads L (slice s (str_find s CHR ''{'') (str_rfind s CHR ''}'' + 1)) = Inr (PDict d)"
        by blast
      from s(1,2) have "r = PStr s"
        by (auto simp: py_or_def split: if_splits)
      with Inr s none show False by blast
    qed
    then show ?thesis
      using prompt Inr
      by (auto simp: generate_documentation_def empty_bundle_def split: sum.splits option.splits)
  qed
next
  show "fully_populated [(''readme'', PStr []), (''api_docs'', PStr []), (''inline_docs'', PStr []),
                 (''usage_examples'', PStr []), (''installation_instructions'', PStr [])]"
    by (simp add: fully_populated_def)
qed

text \<open>
  The amended C1 at two responses: one whose braces enclose a mapping with two of the
  five keys, which is returned as it is, and one without any brace.
\<close>

theorem documentation_bundle_keys_witness:
  \<open>generate_documentation
       (stub_lib (Inr (PStr ''Here: {"readme":"R","api_docs":"A"} ok'')) (Inr PNone))
       ''document the parser'' ''cli'' [] None None
     = Inr [(''readme'', PStr ''R''), (''api_docs'', PStr ''A'')]
   \<and> generate_documentation (stub_lib (Inr (PStr ''no documentation'')) (Inr PNone))
       ''document the parser'' ''cli'' [] None None
     = Inr [(''readme'', PStr []),
            (''api_docs'', PStr []),
            (''inline_docs'', PStr []),
            (''usage_examples'', PStr []),
            (''installation_instructions'', PStr [])]\<close>
proof
  let ?s = \<open>''Here: {"readme":"R","api_docs":"A"} ok''\<close>
  let ?L = "stub_lib (Inr (PStr ?s)) (Inr PNone)"
  let ?P = "join nl (prompt_parts ''document the parser'' ''cli'' [] [] [])"
  have reply: "call_llm ?L ?P = Inr (PStr ?s)"
    by (simp add: stub_lib_def)
  have has_open: "CHR ''{'' \<in> set ?s" by simp
  have has_close: "CHR ''}'' \<in> set ?s" by simp
  have parsed: "json_loads ?L (slice ?s (str_find ?s CHR ''{'') (str_rfind ?s CHR ''}'' + 1))
                  = Inr (PDict [(''readme'', PStr ''R''), (''api_docs'', PStr ''A'')])"
    by code_simp
  from documentation_bundle_keys [of ?L "''document the parser''" "''cli''" "[]" None None]
  have "\<forall>s d. call_llm ?L ?P = Inr (PStr s)
                  \<and> CHR ''{'' \<in> set s \<and> CHR ''}'' \<in> set s
                  \<and> json_loads ?L (slice s (str_find s CHR ''{'') (str_rfind s CHR ''}'' + 1))
                       = Inr (PDict d)
              \<longrightarrow> generate_documentation ?L ''document the parser'' ''cli'' [] None None = Inr d"
    using doc_prompt_plain [of ?L "''document the parser''" "''cli''" "[]"] by blast
  with reply has_open has_close parsed
  show "generate_documentation ?L ''document the parser'' ''cli'' [] None None
          = Inr [(''readme'', PStr ''R''), (''api_docs'', PStr ''A'')]"
    by blast
next
  let ?L = "stub_lib (Inr (PStr ''no documentation'')) (Inr PNone)"
  let ?P = "join nl (prompt_parts ''document the parser'' ''cli'' [] [] [])"
  have none: "\<not> (\<exists>s d. call_llm ?L ?P = Inr (PStr s)
                  \<and> CHR ''{'' \<in> set s \<and> CHR ''}'' \<in> set s
                  \<and> json_loads ?L (slice s (str_find s CHR ''{'') (str_rfind s CHR ''}'' + 1))
                       = Inr (PDict d))"
    by (auto simp: stub_lib_def)
  from documentation_bundle_keys [of ?L "''document the parser''" "''cli''" "[]" None None]
    doc_prompt_plain [of ?L "''document the parser''" "''cli''" "[]"] none
  show "generate_documentation ?L ''document the parser'' ''cli'' [] None None
     = Inr [(''readme'', PStr []),
            (''api_docs'', PStr []),
            (''inline_docs'', PStr []),
            (''usage_examples'', PStr []),
            (''installation_instructions'', PStr [])]"
    by blast
qed

section \<open>The plan pipeline: every response\<close>

lemma nonempty_list_iff:
  "(isinstance_list v \<and> truthy v) = (\<exists>xs. v = PList xs \<and> xs \<noteq> [])"
  by (cases v) auto

lemma dict_get_PList:
  "(dict_get d k PNone = PList xs) = (map_of d k = Some (PList xs))"
  by (simp add: dict_get_def split: option.splits)

lemma unusable_iff:
  "unusable (map_of d k) = (\<not> (isinstance_list (dict_get d k PNone) \<and> truthy (dict_get d k PNone)))"
proof (cases "map_of d k")
  case None
  then show ?thesis by (simp add: dict_get_def)
next
  case (Some v)
  then show ?thesis by (cases v) (simp_all add: dict_get_def)
qed

lemma plan_try_of_mapping:
  assumes "s \<noteq> []" and "json_loads L (extract_json_block_str s) = Inr (PDict d)"
  shows "plan_try L (PStr s) plan0 =
           (\<lparr> components = (if unusable (map_of d ''components'') then components plan0
                              else items_of (dict_get d ''components'' PNone)),
               search_queries = (if unusable (map_of d ''search_queries'') then search_queries plan0
                                 else items_of (dict_get d ''search_queries'' PNone)) \<rparr>, None)"
  using assms
  by (simp add: plan_try_def extract_json_block_def unusable_iff Let_def)

lemma plan_try_fields:
  assumes "plan_try L (PStr s) plan0 = (p, r)" and "s \<noteq> []"
  shows "(components p = components plan0
            \<or> (components p \<noteq> []
                \<and> (\<exists>d. json_loads L (extract_json_block_str s) = Inr (PDict d)
                      \<and> map_of d ''components'' = Some (PList (components p)))))
         \<and> (search_queries p = search_queries plan0
            \<or> (search_queries p \<noteq> []
                \<and> (\<exists>d. json_loads L (extract_json_block_str s) = Inr (PDict d)
                      \<and> map_of d ''search_queries'' = Some (PList (search_queries p)))))"
proof (cases "json_loads L (extract_json_block_str s)")
  case (Inl exc)
  then show ?thesis
    using assms by (auto simp: plan_try_def extract_json_block_def)
next
  case (Inr parsed)
  show ?thesis
  proof (cases "isinstance_dict parsed")
    case False
    then show ?thesis
      using assms Inr by (cases parsed) (auto simp: plan_try_def extract_json_block_def)
  next
    case True
    then obtain d where d: "parsed = PDict d" by (cases parsed) auto
    have p: "p = \<lparr> components = (if unusable (map_of d ''components'') then components plan0
                              else items_of (dict_get d ''components'' PNone)),
               search_queries = (if unusable (map_of d ''search_queries'') then search_queries plan0
                                 else items_of (dict_get d ''search_queries'' PNone)) \<rparr>"
      using plan_try_of_mapping [OF assms(2), of L d plan0] Inr d assms(1) by simp
    have adopt: "\<And>k. \<not> unusable (map_of d k) \<Longrightarrow>
        items_of (dict_get d k PNone) \<noteq> []
        \<and> map_of d k = Some (PList (items_of (dict_get d k PNone)))"
    proof -
      fix k assume "\<not> unusable (map_of d k)"
      then obtain xs where "dict_get d k PNone = PList xs" "xs \<noteq> []"
        unfolding unusable_iff nonempty_list_iff by blast
      then show "items_of (dict_get d k PNone) \<noteq> []
        \<and> map_of d k = Some (PList (items_of (dict_get d k PNone)))"
        by (simp add: dict_get_PList [symmetric])
    qed
    show ?thesis
      using p Inr d adopt [of "''components''"] adopt [of "''search_queries''"] by auto
  qed
qed

lemma plan_of_text:
  assumes "call_llm L (planning_prompt requirements project_type) = Inr (PStr s)" and "s \<noteq> []"
  shows "\<exists>p r. plan_try L (PStr s) (default_plan requirements) = (p, r)
           \<and> plan_code_generation L requirements project_type = Inr p"
proof -
  obtain p r where pr: "plan_try L (PStr s) (default_plan requirements) = (p, r)"
    by (cases "plan_try L (PStr s) (default_plan requirements)") auto
  have "plan_code_generation L requirements project_type = Inr p"
    using assms pr by (cases r) (simp_all add: plan_code_generation_def py_or_def)
  with pr show ?thesis by blast
qed

text \<open>
  Claim C3, amended: for every requirement and project type, and every answer of the
  text-generation collaborator that is a raised exception, \<^verbatim>\<open>None\<close> or a string,
  \<open>plan_code_generation\<close> returns a plan whose \<^verbatim>\<open>components\<close> and
  \<^verbatim>\<open>search_queries\<close> are non-empty lists. Each of the two is either the default,
  and the default plan is structurally valid, or the non-empty list found under that key
  in the mapping the response parses to, with its items as they came.
\<close>

theorem plan_always_nonempty:
  assumes "text_reply (call_llm L (planning_prompt requirements project_type))"
  shows "valid_plan (default_plan requirements)
     \<and> (\<exists>p. plan_code_generation L requirements project_type = Inr p
          \<and> components p \<noteq> [] \<and> search_queries p \<noteq> []
          \<and> (components p = components (default_plan requirements)
              \<or> (\<exists>s d. call_llm L (planning_prompt requirements project_type) = Inr (PStr s)
                    \<and> json_loads L (extract_json_block_str s) = Inr (PDict d)
                    \<and> map_of d ''components'' = Some (PList (components p))))
          \<and> (search_queries p = search_queries (default_plan requirements)
              \<or> (\<exists>s d. call_llm L (planning_prompt requirements project_type) = Inr (PStr s)
                    \<and> json_loads L (extract_json_block_str s) = Inr (PDict d)
                    \<and> map_of d ''search_queries'' = Some (PList (search_queries p)))))"
proof -
  let ?reply = "call_llm L (planning_prompt requirements project_type)"
  have dflt: "components (default_plan requirements) \<noteq> []"
    "search_queries (default_plan requirements) \<noteq> []"
    by (simp_all add: default_plan_def)
  consider (fallback) "?reply = Inr (PStr []) \<or> (\<exists>exc. ?reply = Inl exc) \<or> ?reply = Inr PNone"
    | (answer) s where "?reply = Inr (PStr s)" "s \<noteq> []"
    using assms by (cases ?reply rule: text_reply.cases) auto
  then have "\<exists>p. plan_code_generation L requirements project_type = Inr p
          \<and> components p \<noteq> [] \<and> search_queries p \<noteq> []
          \<and> (components p = components (default_plan requirements)
              \<or> (\<exists>s d. ?reply = Inr (PStr s)
                    \<and> json_loads L (extract_json_block_str s) = Inr (PDict d)
                    \<and> map_of d ''components'' = Some (PList (components p))))
          \<and> (search_queries p = search_queries (default_plan requirements)
              \<or> (\<exists>s d. ?reply = Inr (PStr s)
                    \<and> json_loads L (extract_json_block_str s) = Inr (PDict d)
                    \<and> map_of d ''search_queries'' = Some (PList (search_queries p))))"
  proof cases
    case fallback
    then have "plan_code_generation L requirements project_type = Inr (default_plan requirements)"
      by (auto simp: plan_code_generation_def py_or_def)
    then show ?thesis using dflt by simp
  next
    case answer
    from plan_of_text [OF answer] obtain p r
      where pr: "plan_try L (PStr s) (default_plan requirements) = (p, r)"
        and res: "plan_code_generation L requirements project_type = Inr p"
      by blast
    from plan_try_fields [OF pr answer(2)] dflt answer(1) res show ?thesis
      by (metis (no_types, lifting))
  qed
  then show ?thesis using valid_default_plan by blast
qed




lemma plan_of_mapping:
  assumes "call_llm L (planning_prompt requirements project_type) = Inr (PStr s)"
    and "s \<noteq> []"
    and "json_loads L (extract_json_block_str s) = Inr (PDict d)"
  shows "plan_code_generation L requirements project_type =
           Inr \<lparr> components =
                   (if unusable (map_of d ''components'')
                    then components (default_plan requirements)
                    else items_of (dict_get d ''components'' PNone)),
                 search_queries =
                   (if unusable (map_of d ''search_queries'')
                    then search_queries (default_plan requirements)
                    else items_of (dict_get d ''search_queries'' PNone)) \<rparr>"
  using plan_of_text [OF assms(1,2)] plan_try_of_mapping [OF assms(2,3)]
  by auto

text \<open>
  Claim C8. When the response parses to a mapping, each field of the plan is settled on
  its own. A \<^verbatim>\<open>components\<close> field that is a non-empty list is adopted, and one that
  is an empty list, absent or not a list keeps the default component, whatever the other
  field holds; likewise a non-empty \<^verbatim>\<open>search_queries\<close> list is adopted, and an
  empty, absent or non-list one keeps the default search queries, the requirement
  alone. In particular a valid \<^verbatim>\<open>components\<close> list with an empty
  \<^verbatim>\<open>search_queries\<close> list gives the new components and the default queries.
\<close>

theorem partial_plan_repair:
  assumes "call_llm L (planning_prompt requirements project_type) = Inr (PStr s)"
    and "s \<noteq> []"
    and "json_loads L (extract_json_block_str s) = Inr (PDict d)"
  shows "\<exists>p. plan_code_generation L requirements project_type = Inr p
           \<and> (\<forall>cs. map_of d ''components'' = Some (PList cs) \<and> cs \<noteq> [] \<longrightarrow> components p = cs)
           \<and> (unusable (map_of d ''components'')
                \<longrightarrow> components p =
                      [PDict [(''name'', PStr ''main_module''),
                              (''description'', PStr requirements),
                              (''priority'', PInt 1)]])
           \<and> (\<forall>qs. map_of d ''search_queries'' = Some (PList qs) \<and> qs \<noteq> []
                \<longrightarrow> search_queries p = qs)
           \<and> (unusable (map_of d ''search_queries'')
                \<longrightarrow> search_queries p = [PStr requirements])"
proof -
  let ?p = "\<lparr> components =
                   (if unusable (map_of d ''components'')
                    then components (default_plan requirements)
                    else items_of (dict_get d ''components'' PNone)),
                 search_queries =
                   (if unusable (map_of d ''search_queries'')
                    then search_queries (default_plan requirements)
                    else items_of (dict_get d ''search_queries'' PNone)) \<rparr>"
  have res: "plan_code_generation L requirements project_type = Inr ?p"
    by (rule plan_of_mapping [OF assms])
  have adopt: "map_of d k = Some (PList xs) \<Longrightarrow> xs \<noteq> [] \<Longrightarrow>
                 \<not> unusable (map_of d k) \<and> items_of (dict_get d k PNone) = xs" for k xs
    by (cases xs) (simp_all add: dict_get_def)
  show ?thesis
    unfolding res using adopt [of "''components''"] adopt [of "''search_queries''"]
    by (auto simp: default_plan_def)
qed

text \<open>
  C8 at three concrete responses: new components with an empty list of queries, an
  empty list of components with new queries, and an empty list of components alone.
\<close>

theorem partial_plan_repair_witness:
  \<open>plan_code_generation
      (stub_lib (Inr (PStr ''{"components":[{"name":"api","description":"routes","priority":2}],"search_queries":[]}''))
                (Inr PNone))
      ''build a service'' ''web'' =
     Inr \<lparr> components =
             [PDict [(''name'', PStr ''api''), (''description'', PStr ''routes''),
                     (''priority'', PInt 2)]],
           search_queries = [PStr ''build a service''] \<rparr>
   \<and> plan_code_generation
      (stub_lib (Inr (PStr ''{"components":[],"search_queries":["http routing"]}'')) (Inr PNone))
      ''build a service'' ''web'' =
     Inr \<lparr> components =
             [PDict [(''name'', PStr ''main_module''),
                     (''description'', PStr ''build a service''),
                     (''priority'', PInt 1)]],
           search_queries = [PStr ''http routing''] \<rparr>
   \<and> plan_code_generation
      (stub_lib (Inr (PStr ''{"components":[]}'')) (Inr PNone))
      ''build a service'' ''web'' =
     Inr \<lparr> components =
             [PDict [(''name'', PStr ''main_module''),
                     (''description'', PStr ''build a service''),
                     (''priority'', PInt 1)]],
           search_queries = [PStr ''build a service''] \<rparr>\<close>
proof (intro conjI)
  let ?s = \<open>''{"components":[{"name":"api","description":"routes","priority":2}],"search_queries":[]}''\<close>
  let ?d = "[(''components'',
               PList [PDict [(''name'', PStr ''api''), (''description'', PStr ''routes''),
                             (''priority'', PInt 2)]]),
              (''search_queries'', PList [])]"
  let ?L = "stub_lib (Inr (PStr ?s)) (Inr PNone)"
  have reply: "call_llm ?L (planning_prompt ''build a service'' ''web'') = Inr (PStr ?s)"
    by (simp add: stub_lib_def)
  have nonempty: "?s \<noteq> []" by simp
  have parsed: "json_loads ?L (extract_json_block_str ?s) = Inr (PDict ?d)"
    by code_simp
  from partial_plan_repair [OF reply nonempty parsed]
  obtain p where "plan_code_generation ?L ''build a service'' ''web'' = Inr p"
    and "components p = [PDict [(''name'', PStr ''api''), (''description'', PStr ''routes''),
                                (''priority'', PInt 2)]]"
    and "search_queries p = [PStr ''build a service'']"
    by auto
  then show "plan_code_generation ?L ''build a service'' ''web'' =
     Inr \<lparr> components =
             [PDict [(''name'', PStr ''api''), (''description'', PStr ''routes''),
                     (''priority'', PInt 2)]],
           search_queries = [PStr ''build a service''] \<rparr>"
    by (cases p) simp
next
  let ?s = \<open>''{"components":[],"search_queries":["http routing"]}''\<close>
  let ?d = "[(''components'', PList []), (''search_queries'', PList [PStr ''http routing''])]"
  let ?L = "stub_lib (Inr (PStr ?s)) (Inr PNone)"
  have reply: "call_llm ?L (planning_prompt ''build a service'' ''web'') = Inr (PStr ?s)"
    by (simp add: stub_lib_def)
  have nonempty: "?s \<noteq> []" by simp
  have parsed: "json_loads ?L (extract_json_block_str ?s) = Inr (PDict ?d)"
    by code_simp
  from partial_plan_repair [OF reply nonempty parsed]
  obtain p where "plan_code_generation ?L ''build a service'' ''web'' = Inr p"
    and "components p = [PDict [(''name'', PStr ''main_module''),
                     (''description'', PStr ''build a service''),
                     (''priority'', PInt 1)]]"
    and "search_queries p = [PStr ''http routing'']"
    by auto
  then show "plan_code_generation ?L ''build a service'' ''web'' =
     Inr \<lparr> components =
             [PDict [(''name'', PStr ''main_module''),
                     (''description'', PStr ''build a service''),
                     (''priority'', PInt 1)]],
           search_queries = [PStr ''http routing''] \<rparr>"
    by (cases p) simp
next
  let ?s = \<open>''{"components":[]}''\<close>
  let ?d = "[(''components'', PList [])]"
  let ?L = "stub_lib (Inr (PStr ?s)) (Inr PNone)"
  have reply: "call_llm ?L (planning_prompt ''build a service'' ''web'') = Inr (PStr ?s)"
    by (simp add: stub_lib_def)
  have nonempty: "?s \<noteq> []" by simp
  have parsed: "json_loads ?L (extract_json_block_str ?s) = Inr (PDict ?d)"
    by code_simp
  from partial_plan_repair [OF reply nonempty parsed]
  obtain p where "plan_code_generation ?L ''build a service'' ''web'' = Inr p"
    and "components p = [PDict [(''name'', PStr ''main_module''),
                     (''description'', PStr ''build a service''),
                     (''priority'', PInt 1)]]"
    and "search_queries p = [PStr ''build a service'']"
    by auto
  then show "plan_code_generation ?L ''build a service'' ''web'' =
     Inr \<lparr> components =
             [PDict [(''name'', PStr ''main_module''),
                     (''description'', PStr ''build a service''),
                     (''priority'', PInt 1)]],
           search_queries = [PStr ''build a service''] \<rparr>"
    by (cases p) simp
qed

text \<open>
  Claim C3, as stated: the plan is structurally valid for every response, also when the
  \<^verbatim>\<open>components\<close> list of the response holds items of other shapes. The code adopts
  any non-empty list: for the response \<^verbatim>\<open>{"components":[1]}\<close> the plan has the
  number 1 where a Component record should be.
\<close>

theorem plan_always_valid_counterexample:
  \<open>plan_code_generation (stub_lib (Inr (PStr ''{"components":[1]}'')) (Inr PNone))
       ''build a service'' ''web''
     = Inr \<lparr> components = [PInt 1], search_queries = [PStr ''build a service''] \<rparr>
   \<and> \<not> valid_plan \<lparr> components = [PInt 1], search_queries = [PStr ''build a service''] \<rparr>\<close>
proof
  show \<open>plan_code_generation (stub_lib (Inr (PStr ''{"components":[1]}'')) (Inr PNone))
       ''build a service'' ''web''
     = Inr \<lparr> components = [PInt 1], search_queries = [PStr ''build a service''] \<rparr>\<close>
    by code_simp
  show "\<not> valid_plan \<lparr> components = [PInt 1], search_queries = [PStr ''build a service''] \<rparr>"
    by (simp add: valid_plan_def)
qed

text \<open>The amended C3 at that response.\<close>

theorem plan_always_nonempty_witness:
  \<open>valid_plan (default_plan ''build a service'')
   \<and> (\<exists>p. plan_code_generation (stub_lib (Inr (PStr ''{"components":[1]}'')) (Inr PNone))
             ''build a service'' ''web'' = Inr p
          \<and> components p \<noteq> [] \<and> search_queries p \<noteq> [])\<close>
proof -
  have reply: \<open>text_reply (call_llm (stub_lib (Inr (PStr ''{"components":[1]}'')) (Inr PNone))
                  (planning_prompt ''build a service'' ''web''))\<close>
    by (simp add: stub_lib_def)
  from plan_always_nonempty [OF reply] show ?thesis
    by blast
qed

section \<open>The exemplar selector: results\<close>

lemma py_index_in_bounds:
  "in_bounds (length xs) j \<Longrightarrow> py_index xs j = Inr (xs ! nat j)"
  by (simp add: py_index_def in_bounds_def)

lemma build_exemplar_at:
  assumes "in_bounds (length code_sections) j"
    and "\<forall>s\<in>set code_sections. isinstance_dict s"
  shows "build_exemplar code_sections (PInt j) = Inr (exemplar_at code_sections j)"
proof -
  from assms(1) have "nat j < length code_sections"
    by (auto simp: in_bounds_def)
  with assms(2) have "isinstance_dict (code_sections ! nat j)"
    by simp
  then obtain d where "code_sections ! nat j = PDict d"
    by (cases "code_sections ! nat j") auto
  then show ?thesis
    using assms(1) by (simp add: build_exemplar_def exemplar_at_def py_index_in_bounds)
qed

lemma add_neighbors_dicts:
  assumes "\<forall>s\<in>set code_sections. isinstance_dict s"
  shows "add_neighbors code_sections max_exemplars i offsets exemplars =
           Inr (exemplars @ map (exemplar_at code_sections)
                  (take (nat (max_exemplars - int (length exemplars)))
                     (filter (in_bounds (length code_sections)) (map (\<lambda>offset. i + offset) offsets))))"
proof (induction offsets arbitrary: exemplars)
  case Nil
  show ?case by simp
next
  case (Cons offset rest)
  show ?case
  proof (cases "int (length exemplars) \<ge> max_exemplars")
    case True
    then show ?thesis by simp
  next
    case room: False
    show ?thesis
    proof (cases "in_bounds (length code_sections) (i + offset)")
      case True
      let ?ex = "exemplar_at code_sections (i + offset)"
      have inb: "0 \<le> i + offset \<and> i + offset < int (length code_sections)"
        using True by (simp add: in_bounds_def)
      have step: "nat (max_exemplars - int (length exemplars))
                    = Suc (nat (max_exemplars - int (length (exemplars @ [?ex]))))"
        using room by simp
      have "add_neighbors code_sections max_exemplars i (offset # rest) exemplars
              = add_neighbors code_sections max_exemplars i rest (exemplars @ [?ex])"
        using room inb build_exemplar_at [OF True assms] by (simp add: Let_def)
      also have "\<dots> = Inr ((exemplars @ [?ex]) @ map (exemplar_at code_sections)
                  (take (nat (max_exemplars - int (length (exemplars @ [?ex]))))
                     (filter (in_bounds (length code_sections)) (map (\<lambda>offset. i + offset) rest))))"
        by (rule Cons.IH)
      finally show ?thesis
        using True by (simp only: step list.map filter.simps if_True take_Suc_Cons append_assoc append_Cons append_Nil)
    next
      case False
      then have "\<not> (0 \<le> i + offset \<and> i + offset < int (length code_sections))"
        by (simp add: in_bounds_def)
      then have "add_neighbors code_sections max_exemplars i (offset # rest) exemplars
              = add_neighbors code_sections max_exemplars i rest exemplars"
        using room by (auto simp: Let_def)
      then show ?thesis
        using False Cons.IH [of exemplars] by simp
    qed
  qed
qed



lemma chosen_index_valid:
  assumes "map_of d ''chosen_section_index'' = Some (PInt i)"
    and "in_bounds (length code_sections) i"
  shows "chosen_index (PDict d) code_sections = PInt i"
  using assms by (simp add: chosen_index_def dict_get_def in_bounds_def)

lemma chosen_index_fallback:
  assumes "lacks_valid_index result (length code_sections)"
  shows "chosen_index result code_sections = PInt 0"
proof (cases result)
  case (PDict d)
  show ?thesis
  proof (cases "map_of d ''chosen_section_index''")
    case None
    then show ?thesis using PDict by (simp add: chosen_index_def dict_get_def)
  next
    case (Some v)
    then show ?thesis
      using PDict assms by (auto simp: chosen_index_def dict_get_def in_bounds_def)
  qed
qed (simp_all add: chosen_index_def)

lemma find_function_exemplars_int:
  assumes "\<forall>s\<in>set code_sections. isinstance_dict s"
    and "deep_search L requirement code_sections = Inr result"
    and "chosen_index result code_sections = PInt i"
    and "in_bounds (length code_sections) i"
  shows "find_function_exemplars L requirement code_sections max_exemplars =
           Inr (map (exemplar_at code_sections) (neighbourhood (length code_sections) max_exemplars i))"
proof -
  from assms(4) have "code_sections \<noteq> []"
    by (auto simp: in_bounds_def)
  then show ?thesis
    using assms(2,3) build_exemplar_at [OF assms(4,1)]
      add_neighbors_dicts [OF assms(1), of max_exemplars i "[-1, 1, -2, 2]"
                             "[exemplar_at code_sections i]"]
    by (simp add: find_function_exemplars_def neighbourhood_def)
qed

lemma neighbourhood_in_bounds:
  assumes "in_bounds n i"
  shows "list_all (in_bounds n) (neighbourhood n max_exemplars i)"
proof -
  have "set (take (nat (max_exemplars - 1)) (filter (in_bounds n) [i - 1, i + 1, i - 2, i + 2]))
          \<subseteq> set (filter (in_bounds n) [i - 1, i + 1, i - 2, i + 2])"
    by (rule set_take_subset)
  then show ?thesis
    using assms unfolding neighbourhood_def list_all_iff by auto
qed

lemma length_neighbourhood:
  "int (length (neighbourhood n max_exemplars i)) \<le> max 1 max_exemplars"
  "1 \<le> length (neighbourhood n max_exemplars i)"
  "max_exemplars \<le> 0 \<Longrightarrow> length (neighbourhood n max_exemplars i) = 1"
  by (auto simp: neighbourhood_def)

lemma exemplar_at_typed:
  assumes "in_bounds (length sections) j"
  shows "exemplar_at (map PDict sections) j = exemplar_of sections j"
proof -
  from assms have "nat j < length sections"
    by (auto simp: in_bounds_def)
  then show ?thesis
    by (simp add: exemplar_at_def exemplar_of_def)
qed

lemma exemplars_typed:
  assumes "list_all (in_bounds (length sections)) js"
  shows "map (exemplar_at (map PDict sections)) js = map (exemplar_of sections) js"
  using assms by (induction js) (simp_all add: exemplar_at_typed)

lemma typed_sections: "\<forall>s\<in>set (map PDict sections). isinstance_dict s"
  by simp

lemma find_function_exemplars_typed:
  assumes "deep_search L requirement (map PDict sections) = Inr result"
    and "chosen_index result (map PDict sections) = PInt i"
    and "in_bounds (length sections) i"
  shows "find_function_exemplars L requirement (map PDict sections) max_exemplars =
           Inr (map (exemplar_of sections) (neighbourhood (length sections) max_exemplars i))"
proof -
  have inb: "in_bounds (length (map PDict sections)) i"
    using assms(3) by simp
  have "find_function_exemplars L requirement (map PDict sections) max_exemplars =
          Inr (map (exemplar_at (map PDict sections))
                 (neighbourhood (length (map PDict sections)) max_exemplars i))"
    by (rule find_function_exemplars_int [OF typed_sections assms(1,2) inb])
  then show ?thesis
    using exemplars_typed [OF neighbourhood_in_bounds [OF assms(3)], of max_exemplars]
    by simp
qed

text \<open>
  Claim C6. Given a ranking result whose \<^verbatim>\<open>chosen_section_index\<close> is an integer
  within the sections, \<open>find_function_exemplars\<close> returns the exemplar of the chosen
  index first, followed by the exemplars of the neighbours at the offsets
  \<open>-1, +1, -2, +2\<close> that lie within bounds, in that order, no further than
  \<open>max_exemplars\<close> exemplars in all.
\<close>

theorem exemplar_neighbourhood_order:
  assumes "deep_search L requirement (map PDict sections) = Inr (PDict d)"
    and "map_of d ''chosen_section_index'' = Some (PInt i)"
    and "0 \<le> i" and "i < int (length sections)"
  shows "find_function_exemplars L requirement (map PDict sections) max_exemplars =
           Inr (map (exemplar_of sections)
                  (i # take (nat (max_exemplars - 1))
                         (filter (\<lambda>j. 0 \<le> j \<and> j < int (length sections))
                            [i - 1, i + 1, i - 2, i + 2])))"
proof -
  have inb: "in_bounds (length sections) i"
    using assms(3,4) by (simp add: in_bounds_def)
  have chosen: "chosen_index (PDict d) (map PDict sections) = PInt i"
    using chosen_index_valid [OF assms(2), of "map PDict sections"] inb by simp
  have "neighbourhood (length sections) max_exemplars i =
          i # take (nat (max_exemplars - 1))
                (filter (\<lambda>j. 0 \<le> j \<and> j < int (length sections)) [i - 1, i + 1, i - 2, i + 2])"
    unfolding neighbourhood_def in_bounds_def [abs_def] by (rule refl)
  with find_function_exemplars_typed [OF assms(1) chosen inb, of max_exemplars]
  show ?thesis by simp
qed


text \<open>C6 at five sections, chosen index 2 and at most 3 exemplars: the exemplars of the
  sections 2, 1 and 3, in that order.\<close>

theorem exemplar_neighbourhood_order_witness:
  "find_function_exemplars
       (stub_lib (Inr PNone) (Inr (PDict [(''chosen_section_index'', PInt 2)])))
       ''parse a log file''
       (map PDict [[(''section_name'', PStr ''s0'')], [(''section_name'', PStr ''s1'')],
                   [(''section_name'', PStr ''s2'')], [(''section_name'', PStr ''s3'')],
                   [(''section_name'', PStr ''s4'')]]) 3
     = Inr [\<lparr> index = PInt 2, artifact_name = PNone, document_name = PNone,
               section_name = PStr ''s2'', description = PNone \<rparr>,
            \<lparr> index = PInt 1, artifact_name = PNone, document_name = PNone,
               section_name = PStr ''s1'', description = PNone \<rparr>,
            \<lparr> index = PInt 3, artifact_name = PNone, document_name = PNone,
               section_name = PStr ''s3'', description = PNone \<rparr>]"
proof -
  let ?secs = "[[(''section_name'', PStr ''s0'')], [(''section_name'', PStr ''s1'')],
                [(''section_name'', PStr ''s2'')], [(''section_name'', PStr ''s3'')],
                [(''section_name'', PStr ''s4'')]]"
  let ?L = "stub_lib (Inr PNone) (Inr (PDict [(''chosen_section_index'', PInt 2)]))"
  have ranked: "deep_search ?L ''parse a log file'' (map PDict ?secs)
                  = Inr (PDict [(''chosen_section_index'', PInt 2)])"
    by (simp add: stub_lib_def)
  have key: "map_of [(''chosen_section_index'', PInt 2)] ''chosen_section_index'' = Some (PInt 2)"
    by simp
  have lo: "(0::int) \<le> 2" by simp
  have hi: "(2::int) < int (length ?secs)" by simp
  have "find_function_exemplars ?L ''parse a log file'' (map PDict ?secs) 3
          = Inr (map (exemplar_of ?secs) [2, 1, 3])"
    using exemplar_neighbourhood_order [OF ranked key lo hi, of 3] by simp
  also have "map (exemplar_of ?secs) [2, 1, 3]
       = [\<lparr> index = PInt 2, artifact_name = PNone, document_name = PNone,
               section_name = PStr ''s2'', description = PNone \<rparr>,
            \<lparr> index = PInt 1, artifact_name = PNone, document_name = PNone,
               section_name = PStr ''s1'', description = PNone \<rparr>,
            \<lparr> index = PInt 3, artifact_name = PNone, document_name = PNone,
               section_name = PStr ''s3'', description = PNone \<rparr>]"
    by (simp add: exemplar_of_def dict_get_def numeral_3_eq_3)
  finally show ?thesis by simp
qed


text \<open>
  Claim C7, as stated: with a ranking result that gives no valid index, the function
  returns at most \<open>max_exemplars\<close> exemplars. The exemplar of index 0 is appended
  before the limit is read: with one section and \<open>max_exemplars = 0\<close> the result has
  one exemplar.
\<close>

theorem exemplar_fallback_counterexample:
  "find_function_exemplars (stub_lib (Inr PNone) (Inr (PDict []))) ''parse a log file''
       [PDict [(''section_name'', PStr ''s0'')]] 0
     = Inr [\<lparr> index = PInt 0, artifact_name = PNone, document_name = PNone,
               section_name = PStr ''s0'', description = PNone \<rparr>]
   \<and> \<not> int (length [\<lparr> index = PInt 0, artifact_name = PNone, document_name = PNone,
                         section_name = PStr ''s0'', description = PNone \<rparr>]) \<le> 0"
proof
  show "find_function_exemplars (stub_lib (Inr PNone) (Inr (PDict []))) ''parse a log file''
       [PDict [(''section_name'', PStr ''s0'')]] 0
     = Inr [\<lparr> index = PInt 0, artifact_name = PNone, document_name = PNone,
               section_name = PStr ''s0'', description = PNone \<rparr>]"
    by code_simp
  show "\<not> int (length [\<lparr> index = PInt 0, artifact_name = PNone, document_name = PNone,
                         section_name = PStr ''s0'', description = PNone \<rparr>]) \<le> 0"
    by simp
qed

text \<open>
  Claim C7, amended. For every non-empty section list, if the ranking result is not a
  mapping, or lacks \<^verbatim>\<open>chosen_section_index\<close>, or that value is not an integer, or
  lies outside \<open>[0, len(sections))\<close>, the chosen index is 0: the result is the exemplar
  of section 0 followed by the exemplars of the neighbours 1 and 2 that exist, as far as
  \<open>max_exemplars\<close> allows, and it has at most \<open>max 1 max_exemplars\<close> exemplars.
  "Not an integer" is what \<^verbatim>\<open>isinstance(idx, int)\<close> denies.
\<close>

theorem exemplar_fallback:
  assumes "sections \<noteq> []"
    and "deep_search L requirement (map PDict sections) = Inr result"
    and "lacks_valid_index result (length sections)"
  shows "chosen_index result (map PDict sections) = PInt 0
       \<and> find_function_exemplars L requirement (map PDict sections) max_exemplars =
           Inr (exemplar_of sections 0
                # map (exemplar_of sections)
                    (take (nat (max_exemplars - 1))
                       (filter (\<lambda>j. 0 \<le> j \<and> j < int (length sections)) [-1, 1, -2, 2])))
       \<and> int (length (exemplar_of sections 0
                # map (exemplar_of sections)
                    (take (nat (max_exemplars - 1))
                       (filter (\<lambda>j. 0 \<le> j \<and> j < int (length sections)) [-1, 1, -2, 2]))))
           \<le> max 1 max_exemplars"
proof -
  have inb: "in_bounds (length sections) 0"
    using assms(1) by (simp add: in_bounds_def)
  have idx: "chosen_index result (map PDict sections) = PInt 0"
    using chosen_index_fallback [of result "map PDict sections"] assms(3) by simp
  have nb: "neighbourhood (length sections) max_exemplars 0 =
          0 # take (nat (max_exemplars - 1))
                (filter (\<lambda>j. 0 \<le> j \<and> j < int (length sections)) [-1, 1, -2, 2])"
    unfolding neighbourhood_def in_bounds_def [abs_def] by simp
  have res: "find_function_exemplars L requirement (map PDict sections) max_exemplars =
           Inr (exemplar_of sections 0
                # map (exemplar_of sections)
                    (take (nat (max_exemplars - 1))
                       (filter (\<lambda>j. 0 \<le> j \<and> j < int (length sections)) [-1, 1, -2, 2])))"
    using find_function_exemplars_typed [OF assms(2) idx inb, of max_exemplars]
    unfolding nb by simp
  have len: "int (length (exemplar_of sections 0
                # map (exemplar_of sections)
                    (take (nat (max_exemplars - 1))
                       (filter (\<lambda>j. 0 \<le> j \<and> j < int (length sections)) [-1, 1, -2, 2]))))
           \<le> max 1 max_exemplars"
    using length_neighbourhood(1) [of "length sections" max_exemplars 0]
    unfolding nb by simp
  from idx res len show ?thesis by blast
qed


text \<open>The amended C7 at three sections, the index \<open>-1\<close> and at most 2 exemplars.\<close>

theorem exemplar_fallback_witness:
  "chosen_index (PDict [(''chosen_section_index'', PInt (-1))])
       (map PDict [[(''section_name'', PStr ''s0'')], [(''section_name'', PStr ''s1'')],
                   [(''section_name'', PStr ''s2'')]]) = PInt 0
   \<and> find_function_exemplars
         (stub_lib (Inr PNone) (Inr (PDict [(''chosen_section_index'', PInt (-1))])))
         ''parse a log file''
         (map PDict [[(''section_name'', PStr ''s0'')], [(''section_name'', PStr ''s1'')],
                     [(''section_name'', PStr ''s2'')]]) 2
       = Inr [\<lparr> index = PInt 0, artifact_name = PNone, document_name = PNone,
                 section_name = PStr ''s0'', description = PNone \<rparr>,
              \<lparr> index = PInt 1, artifact_name = PNone, document_name = PNone,
                 section_name = PStr ''s1'', description = PNone \<rparr>]"
proof -
  let ?secs = "[[(''section_name'', PStr ''s0'')], [(''section_name'', PStr ''s1'')],
                [(''section_name'', PStr ''s2'')]]"
  let ?r = "PDict [(''chosen_section_index'', PInt (-1))]"
  let ?L = "stub_lib (Inr PNone) (Inr ?r)"
  have nonempty: "?secs \<noteq> []" by simp
  have ranked: "deep_search ?L ''parse a log file'' (map PDict ?secs) = Inr ?r"
    by (simp add: stub_lib_def)
  have bad: "lacks_valid_index ?r (length ?secs)"
    by (simp add: in_bounds_def)
  have ex: "exemplar_of ?secs 0 # map (exemplar_of ?secs) [1]
       = [\<lparr> index = PInt 0, artifact_name = PNone, document_name = PNone,
                 section_name = PStr ''s0'', description = PNone \<rparr>,
              \<lparr> index = PInt 1, artifact_name = PNone, document_name = PNone,
                 section_name = PStr ''s1'', description = PNone \<rparr>]"
    by (simp add: exemplar_of_def dict_get_def)
  from exemplar_fallback [OF nonempty ranked bad, of 2] ex
  show ?thesis by simp
qed




section \<open>Totality of the three pipelines\<close>









text \<open>
  The ranking collaborator is called outside any \<^verbatim>\<open>try\<close> (search\_agent.py,
  line 23): for a non-empty section list an exception it raises leaves
  \<open>find_function_exemplars\<close> as it is.
\<close>

lemma ranking_exception_propagates:
  assumes "code_sections \<noteq> []"
    and "deep_search L requirement code_sections = Inl exc"
  shows "find_function_exemplars L requirement code_sections max_exemplars = Inl exc"
  using assms by (simp add: find_function_exemplars_def)

section \<open>The payload extractor: results\<close>

lemma find_from_eq:
  "find_from c s i =
     (if c \<in> set s then i + int (length (takeWhile (\<lambda>x. x \<noteq> c) s)) else -1)"
  by (induction s arbitrary: i) auto

lemma str_find_eq:
  "str_find s c =
     (if c \<in> set s then int (length (takeWhile (\<lambda>x. x \<noteq> c) s)) else -1)"
  by (simp add: str_find_def find_from_eq)

lemma rfind_from_eq:
  "rfind_from c s i best =
     (if c \<in> set s
      then i + int (length s) - 1 - int (length (takeWhile (\<lambda>x. x \<noteq> c) (rev s)))
      else best)"
proof (induction s arbitrary: i best)
  case Nil
  show ?case by simp
next
  case (Cons x xs)
  show ?case
  proof (cases "c \<in> set xs")
    case True
    then have "takeWhile (\<lambda>x. x \<noteq> c) (rev xs @ [x]) = takeWhile (\<lambda>x. x \<noteq> c) (rev xs)"
      by (intro takeWhile_append1 [of c]) auto
    with True Cons.IH [of "i + 1"] show ?thesis by simp
  next
    case False
    then have tw: "takeWhile (\<lambda>x. x \<noteq> c) (rev xs @ [x]) = rev xs @ takeWhile (\<lambda>x. x \<noteq> c) [x]"
      by (intro takeWhile_append2) auto
    show ?thesis
    proof (cases "x = c")
      case True
      with tw have "length (takeWhile (\<lambda>x. x \<noteq> c) (rev (x # xs))) = length xs"
        by simp
      with True False Cons.IH [of "i + 1" i] show ?thesis by simp
    next
      case diff: False
      with False Cons.IH [of "i + 1" best] show ?thesis by simp
    qed
  qed
qed

lemma str_rfind_eq:
  "str_rfind s c =
     (if c \<in> set s
      then int (length s) - 1 - int (length (takeWhile (\<lambda>x. x \<noteq> c) (rev s)))
      else -1)"
  by (simp add: str_rfind_def rfind_from_eq)

lemma first_line_eq:
  assumes "CHR 0x0A \<in> set t"
  shows "slice_from t (str_find t CHR 0x0A + 1) = without_first_line t"
proof -
  let ?n = "length (takeWhile (\<lambda>c. c \<noteq> CHR 0x0A) t)"
  have "clamp_index (length t) (int ?n + 1) = min (length t) (?n + 1)"
    by (simp add: clamp_index_def nat_add_distrib)
  then have "slice_from t (int ?n + 1) = drop (?n + 1) t"
    by (simp add: slice_from_def min_def)
  moreover have "without_first_line t = drop (?n + 1) t"
    by (simp add: without_first_line_def dropWhile_eq_drop)
  ultimately show ?thesis
    using assms by (simp add: str_find_eq)
qed

lemma endswith_backtick: "endswith t ''`'' = (t \<noteq> [] \<and> last t = CHR ''`'')"
proof (cases t rule: rev_cases)
  case Nil
  then show ?thesis by (simp add: endswith_def)
next
  case (snoc ys y)
  then show ?thesis by (auto simp: endswith_def)
qed

lemma slice_to_minus_one: "slice_to t (-1) = butlast t"
  by (simp add: slice_to_def clamp_index_def butlast_conv_take nat_diff_distrib')

lemma strip_backticks_eq: "strip_backticks t = without_trailing_fence t"
proof (induction t rule: strip_backticks.induct)
  case (1 t)
  show ?case
  proof (cases "endswith t ''`''")
    case True
    then obtain ys where t: "t = ys @ [CHR ''`'']"
      unfolding endswith_backtick by (cases t rule: rev_cases) auto
    have "strip_backticks t = strip_backticks (slice_to t (-1))"
      using True by (subst strip_backticks.simps) simp
    also have "\<dots> = without_trailing_fence (slice_to t (-1))"
      by (rule "1.IH" [OF True])
    also have "\<dots> = without_trailing_fence t"
      using t by (simp add: slice_to_minus_one without_trailing_fence_def)
    finally show ?thesis .
  next
    case False
    then have "strip_backticks t = t"
      by (subst strip_backticks.simps) simp
    moreover have "without_trailing_fence t = t"
    proof (cases t rule: rev_cases)
      case Nil
      then show ?thesis by (simp add: without_trailing_fence_def)
    next
      case (snoc ys y)
      with False have "y \<noteq> CHR ''`''"
        by (simp add: endswith_backtick)
      with snoc show ?thesis by (simp add: without_trailing_fence_def)
    qed
    ultimately show ?thesis by simp
  qed
qed

lemma unfence_eq:
  "unfence t =
     (if startswith t ''```''
      then strip (without_trailing_fence (if CHR 0x0A \<in> set t then without_first_line t else t))
      else t)"
proof (cases "CHR 0x0A \<in> set t")
  case True
  then have "str_find t CHR 0x0A \<noteq> -1"
    by (simp add: str_find_eq)
  then show ?thesis
    using True first_line_eq [OF True]
    by (simp add: unfence_def Let_def strip_backticks_eq)
next
  case False
  then show ?thesis
    by (simp add: unfence_def Let_def strip_backticks_eq str_find_eq)
qed


lemma slice_take_drop:
  assumes "a \<le> b" and "b \<le> length t"
  shows "slice t (int a) (int b) = take (b - a) (drop a t)"
  using assms by (simp add: slice_def clamp_index_def min_def)

lemma braces_eq: "braces t = (case brace_block t of Some block \<Rightarrow> block | None \<Rightarrow> t)"
proof (cases "CHR ''{'' \<in> set t")
  case False
  then have fo_nil: "dropWhile (\<lambda>c. c \<noteq> CHR ''{'') t = []"
    by auto
  have "brace_block t = None"
    unfolding brace_block_def Let_def fo_nil by simp
  then show ?thesis
    using False by (simp add: braces_def str_find_eq)
next
  case has_open: True
  define pre where "pre = takeWhile (\<lambda>c. c \<noteq> CHR ''{'') t"
  define fo where "fo = dropWhile (\<lambda>c. c \<noteq> CHR ''{'') t"
  have t: "t = pre @ fo"
    by (simp add: pre_def fo_def)
  have fo_ne: "fo \<noteq> []"
    using has_open by (simp add: fo_def)
  have hd_fo: "hd fo = CHR ''{''"
    using fo_ne hd_dropWhile [of "\<lambda>c. c \<noteq> CHR ''{''" t] by (simp add: fo_def)
  have start: "str_find t CHR ''{'' = int (length pre)"
    using has_open by (simp add: str_find_eq pre_def)
  show ?thesis
  proof (cases "CHR ''}'' \<in> set fo")
    case False
    then have "dropWhile (\<lambda>c. c \<noteq> CHR ''}'') (rev fo) = []"
      by auto
    then have block: "brace_block t = None"
      unfolding brace_block_def Let_def fo_def [symmetric] by simp
    have "\<not> (str_rfind t CHR ''}'' \<noteq> -1 \<and> str_rfind t CHR ''}'' > str_find t CHR ''{'')"
    proof (cases "CHR ''}'' \<in> set t")
      case False
      then show ?thesis by (simp add: str_rfind_eq)
    next
      case True
      have "takeWhile (\<lambda>c. c \<noteq> CHR ''}'') (rev fo @ rev pre)
              = rev fo @ takeWhile (\<lambda>c. c \<noteq> CHR ''}'') (rev pre)"
        using False by (intro takeWhile_append2) auto
      then have "length fo \<le> length (takeWhile (\<lambda>c. c \<noteq> CHR ''}'') (rev t))"
        by (simp add: t)
      then show ?thesis
        using True start by (simp add: str_rfind_eq t)
    qed
    then show ?thesis
      using block by (auto simp: braces_def Let_def)
  next
    case has_close: True
    define k where "k = length (takeWhile (\<lambda>c. c \<noteq> CHR ''}'') (rev fo))"
    have tw: "takeWhile (\<lambda>c. c \<noteq> CHR ''}'') (rev fo @ rev pre)
                = takeWhile (\<lambda>c. c \<noteq> CHR ''}'') (rev fo)"
      using has_close by (intro takeWhile_append1 [of "CHR ''}''"]) auto
    have k_lt: "k < length (rev fo)"
    proof -
      have "takeWhile (\<lambda>c. c \<noteq> CHR ''}'') (rev fo) \<noteq> rev fo"
        using has_close by (simp add: takeWhile_eq_all_conv)
      moreover have "takeWhile (\<lambda>c. c \<noteq> CHR ''}'') (rev fo) = take k (rev fo)"
        unfolding k_def by (rule takeWhile_eq_take)
      moreover have "k \<le> length (rev fo)"
        unfolding k_def by (rule length_takeWhile_le)
      ultimately show ?thesis
        by (cases "k = length (rev fo)") auto
    qed
    have at_k: "rev fo ! k = CHR ''}''"
      using nth_length_takeWhile [of "\<lambda>c. c \<noteq> CHR ''}''" "rev fo"] k_lt
      by (simp add: k_def)
    have "rev fo ! (length fo - 1) = CHR ''{''"
      using fo_ne hd_fo by (simp add: rev_nth hd_conv_nth)
    with at_k have "k \<noteq> length fo - 1"
      by auto
    with k_lt have k2: "k + 1 < length fo"
      by simp
    have in_t: "CHR ''}'' \<in> set t"
      using has_close t by simp
    have end_eq: "str_rfind t CHR ''}'' = int (length pre + length fo - 1 - k)"
      using in_t tw k2 by (simp add: str_rfind_eq t k_def [symmetric])
    have cond: "str_find t CHR ''{'' \<noteq> -1 \<and> str_rfind t CHR ''}'' \<noteq> -1
                  \<and> str_rfind t CHR ''}'' > str_find t CHR ''{''"
      using start end_eq k2 by simp
    have e1: "str_rfind t CHR ''}'' + 1 = int (length pre + length fo - k)"
      using end_eq k2 by linarith
    have "slice t (str_find t CHR ''{'') (str_rfind t CHR ''}'' + 1)
            = slice t (int (length pre)) (int (length pre + length fo - k))"
      by (simp only: start e1)
    also have "\<dots> = take (length pre + length fo - k - length pre) (drop (length pre) t)"
      using k2 by (intro slice_take_drop) (simp_all add: t)
    also have "\<dots> = take (length fo - k) fo"
      by (simp add: t)
    finally have lhs: "braces t = take (length fo - k) fo"
      using cond by (simp add: braces_def Let_def)
    have "rev (dropWhile (\<lambda>c. c \<noteq> CHR ''}'') (rev fo)) = rev (drop k (rev fo))"
      by (simp add: k_def dropWhile_eq_drop)
    also have "\<dots> = take (length fo - k) fo"
      by (simp add: rev_drop)
    finally have block: "rev (dropWhile (\<lambda>c. c \<noteq> CHR ''}'') (rev fo)) = take (length fo - k) fo" .
    have "take (length fo - k) fo \<noteq> []"
      using k2 fo_ne by simp
    with block have "brace_block t = Some (take (length fo - k) fo)"
      unfolding brace_block_def Let_def fo_def [symmetric] by simp
    with lhs show ?thesis by simp
  qed
qed

text \<open>
  Claim C5, amended. For every input string the payload extractor returns the empty
  string on empty input and otherwise works on the trimmed input. If the trimmed text
  begins with a fence marker, the first line is removed when the text has a line break
  (a fenced text on a single line keeps that line), every trailing backquote is
  removed, and the rest is trimmed. Then, if a first opening brace and a last closing
  brace both exist with the closing one after the opening one, the substring from the one
  to the other inclusive is returned, and otherwise the trimmed text unchanged. The
  extractor is a function of its input alone.
\<close>

theorem extract_json_block_amended:
  "extract_json_block_str raw = extract_amended raw"
  by (simp add: extract_json_block_str_def extract_amended_def unfence_eq braces_eq Let_def)

text \<open>
  Claim C5, as stated: a text that begins with a fence marker loses its first line.
  The code removes the first line only up to a line break that exists (the test
  \<^verbatim>\<open>first_newline != -1\<close>): a fenced object on a single line is the first line, and
  the code returns the object where the stated rule leaves nothing.
\<close>

theorem extract_json_block_stated_counterexample:
  \<open>extract_json_block_str ''```{"a":1}```'' = ''{"a":1}''
   \<and> extract_stated ''```{"a":1}```'' = []\<close>
proof
  show \<open>extract_json_block_str ''```{"a":1}```'' = ''{"a":1}''\<close>
    by code_simp
  show \<open>extract_stated ''```{"a":1}```'' = []\<close>
    by code_simp
qed

text \<open>The two examples of the specification: a fenced response and a response with
  prose around the object.\<close>

lemma extract_json_block_examples:
  \<open>extract_json_block_str (''```json'' @ nl @ ''{"a":1}'' @ nl @ ''```'') = ''{"a":1}''\<close>
  \<open>extract_json_block_str ''Sure! Here is it: {"x":2} Hope that helps.'' = ''{"x":2}''\<close>
  by code_simp+

end
